theory Spec2Isabelle
  imports Complex_Main "HOL-Library.Monad_Syntax" "HOL-Library.Log_Nat"
begin

section \<open>orbit\_rat: two analog sticks driving mouse pan/orbit gestures\<close>

text \<open>
  A shallow embedding of \<^verbatim>\<open>src/main.cpp\<close>.

  \<^item> The C++ \<^verbatim>\<open>int\<close> is modelled by \<^typ>\<open>int\<close>, a 32-bit value being one that satisfies
    \<open>int_range\<close>. The one place where the source can overflow it, the sum kept in
    \<^verbatim>\<open>unwindAccumulator\<close> during a move, wraps around (\<open>wrap_int\<close>). Lemma
    \<open>max_step_no_overflow\<close> shows that the unwind loop never leaves the range when it is
    started inside it (the most negative value apart, where \<^verbatim>\<open>-accum\<close> is a signed
    overflow that C++ leaves undefined).
  \<^item> The C++ \<^verbatim>\<open>float\<close> is an IEEE 754 binary32 number, with its infinities and its NaN;
    every operation rounds the exact result to the nearest binary32 number.
  \<^item> The global variables written by the motion code are the fields of the record
    \<open>state\<close>; the calls into the HID libraries (\<^verbatim>\<open>Mouse\<close>, \<^verbatim>\<open>Keyboard\<close>,
    \<^verbatim>\<open>Joystick\<close>) and \<^verbatim>\<open>delay\<close> are recorded, in order, in its field \<open>hid\<close>.
  \<^item> A read outside an array is the value \<open>None\<close>.
\<close>

subsection \<open>Machine integers\<close>

text \<open>The values of a 32-bit \<^verbatim>\<open>int\<close>, and the value a sum wraps around to.\<close>

definition int_range :: "int \<Rightarrow> bool" where
  "int_range x = (- (2 ^ 31) \<le> x \<and> x < 2 ^ 31)"

definition wrap_int :: "int \<Rightarrow> int" where
  "wrap_int x = (x + 2 ^ 31) mod 2 ^ 32 - 2 ^ 31"

subsection \<open>binary32 arithmetic\<close>

text \<open>
  Every finite binary32 number is a whole number of units of \<open>2 ^ - 149\<close>, the smallest
  positive one: \<open>Fin k\<close> is the number \<open>k / 2 ^ 149\<close>. The sign of a zero is not modelled.
  It would show only in a division by zero, and the one divisor of the source that can be
  zero is a difference \<open>high - low\<close> of two equal numbers, which is the positive zero.
\<close>

datatype float = Fin int | PInf | NInf | NaN

text \<open>The integer nearest to \<open>n / d\<close>, for \<open>0 < d\<close>; a tie goes to the even one.\<close>

definition round_half_even :: "int \<Rightarrow> int \<Rightarrow> int" where
  "round_half_even n d =
     (let f = n div d; r = n mod d
      in if 2 * r < d then f else if d < 2 * r then f + 1 else if even f then f else f + 1)"

text \<open>
  The binary exponent of \<open>p / q\<close>, for \<open>0 < p\<close> and \<open>0 < q\<close>: the \<open>e\<close> with
  \<open>2 ^ e \<le> p / q < 2 ^ (e + 1)\<close>, but at least \<open>- 126\<close>, the exponent of the subnormal
  numbers.
\<close>

definition exponent :: "int \<Rightarrow> int \<Rightarrow> int" where
  "exponent p q =
     (let d = bitlen p - bitlen q;
          e = (if q * 2 ^ nat d \<le> p * 2 ^ nat (- d) then d else d - 1)
      in max e (- 126))"

text \<open>
  The binary32 number nearest to \<open>p / q\<close>, for \<open>0 < q\<close>: the significand \<open>m\<close> has 24 bits
  and counts units of \<open>2 ^ (e - 23)\<close>; a result of \<open>2 ^ 128\<close> or more is an infinity.
\<close>

definition round_ratio :: "int \<Rightarrow> int \<Rightarrow> float" where
  "round_ratio p q =
     (let a = \<bar>p\<bar>;
          e = exponent a q;
          m = round_half_even (a * 2 ^ nat (23 - e)) (q * 2 ^ nat (e - 23));
          k = m * 2 ^ nat (e + 126)
      in if 2 ^ 277 \<le> k then (if 0 < p then PInf else NInf)
         else Fin (if p < 0 then - k else k))"

definition float_of_int :: "int \<Rightarrow> float" where
  "float_of_int i = round_ratio i 1"

fun fneg :: "float \<Rightarrow> float" where
  "fneg (Fin a) = Fin (- a)"
| "fneg PInf = NInf"
| "fneg NInf = PInf"
| "fneg NaN = NaN"

fun fadd :: "float \<Rightarrow> float \<Rightarrow> float" where
  "fadd (Fin a) (Fin b) = round_ratio (a + b) (2 ^ 149)"
| "fadd NaN b = NaN"
| "fadd a NaN = NaN"
| "fadd PInf NInf = NaN"
| "fadd NInf PInf = NaN"
| "fadd PInf b = PInf"
| "fadd NInf b = NInf"
| "fadd a b = b"

definition fsub :: "float \<Rightarrow> float \<Rightarrow> float" where
  "fsub a b = fadd a (fneg b)"

fun fmul :: "float \<Rightarrow> float \<Rightarrow> float" where
  "fmul (Fin a) (Fin b) = round_ratio (a * b) (2 ^ 298)"
| "fmul NaN b = NaN"
| "fmul a NaN = NaN"
| "fmul (Fin a) b = (if a = 0 then NaN else if (0 < a) = (b = PInf) then PInf else NInf)"
| "fmul a (Fin b) = (if b = 0 then NaN else if (0 < b) = (a = PInf) then PInf else NInf)"
| "fmul a b = (if a = b then PInf else NInf)"

fun fdiv :: "float \<Rightarrow> float \<Rightarrow> float" where
  "fdiv (Fin a) (Fin b) =
     (if b = 0 then (if a = 0 then NaN else if 0 < a then PInf else NInf)
      else if 0 < b then round_ratio a b else round_ratio (- a) (- b))"
| "fdiv NaN b = NaN"
| "fdiv a NaN = NaN"
| "fdiv (Fin a) b = Fin 0"
| "fdiv a (Fin b) = (if (0 \<le> b) = (a = PInf) then PInf else NInf)"
| "fdiv a b = NaN"

text \<open>\<open><\<close> on floats: false as soon as one side is a NaN.\<close>

fun flt :: "float \<Rightarrow> float \<Rightarrow> bool" where
  "flt (Fin a) (Fin b) = (a < b)"
| "flt NaN b = False"
| "flt a NaN = False"
| "flt a NInf = False"
| "flt PInf b = False"
| "flt a b = True"

text \<open>The integer a finite float truncates to, towards zero.\<close>

definition truncated :: "int \<Rightarrow> int" where
  "truncated k = (if 0 \<le> k then k div 2 ^ 149 else - (- k div 2 ^ 149))"

subsection \<open>Configuration constants\<close>

text \<open>
  The \<^verbatim>\<open>constexpr\<close> values at the head of the file. The functions below take them as a
  record, so that a property can be stated for every step size and every threshold;
  \<open>orbit_rat_config\<close> holds the values of the source. \<^verbatim>\<open>KEY_LEFT_SHIFT\<close> comes from
  \<^verbatim>\<open>Keyboard.h\<close>, which is not part of the repository: it is a parameter.

  The last two fields are not constants of the source. C++ leaves the conversion of a
  float to an integer type undefined when the truncated value is not a value of that type
  (an infinity, a NaN, a number out of range); what the processor then delivers is a
  parameter, and every property below holds whatever it is.
\<close>

record config =
  calibrate_on_startup :: bool
  send_joystick_hid :: bool
  pan_speed :: int
  orbit_speed :: int
  deadzone :: float
  max_unwind_step :: int
  stick_active_buttons :: "(bool \<times> bool \<times> bool) list"
  stick_active_key :: "int list"
  undefined_float_to_int :: "float \<Rightarrow> int"
  undefined_float_to_unsigned :: "float \<Rightarrow> int"

definition n_axes :: nat where
  "n_axes = 4"

text \<open>
  The conversions of the ARM cores of the Teensy boards saturate, and give 0 for a NaN.
\<close>

fun arm_float_to_int :: "float \<Rightarrow> int" where
  "arm_float_to_int (Fin k) = (if 0 \<le> k then 2 ^ 31 - 1 else - (2 ^ 31))"
| "arm_float_to_int PInf = 2 ^ 31 - 1"
| "arm_float_to_int NInf = - (2 ^ 31)"
| "arm_float_to_int NaN = 0"

fun arm_float_to_unsigned :: "float \<Rightarrow> int" where
  "arm_float_to_unsigned (Fin k) = (if 0 \<le> k then 2 ^ 32 - 1 else 0)"
| "arm_float_to_unsigned PInf = 2 ^ 32 - 1"
| "arm_float_to_unsigned NInf = 0"
| "arm_float_to_unsigned NaN = 0"

text \<open>
  \<^verbatim>\<open>deadzone = 0.02\<close> converts the \<^verbatim>\<open>double\<close> nearest to 0.02, which is
  \<open>5764607523034235 / 2 ^ 58\<close>, to a \<^verbatim>\<open>float\<close>.
\<close>

definition orbit_rat_config :: "int \<Rightarrow> config" where
  "orbit_rat_config KEY_LEFT_SHIFT =
     \<lparr> calibrate_on_startup = True,
       send_joystick_hid = False,
       pan_speed = - 25,
       orbit_speed = - 10,
       deadzone = round_ratio 5764607523034235 (2 ^ 58),
       max_unwind_step = 100,
       stick_active_buttons = [(False, True, False), (False, True, False)],
       stick_active_key = [0, KEY_LEFT_SHIFT],
       undefined_float_to_int = arm_float_to_int,
       undefined_float_to_unsigned = arm_float_to_unsigned \<rparr>"

text \<open>
  The conversions of a \<^verbatim>\<open>float\<close> to \<^verbatim>\<open>int\<close> and to \<^verbatim>\<open>unsigned int\<close>, both of 32 bits. An
  \<^verbatim>\<open>unsigned int\<close> is the integer from 0 to \<open>2 ^ 32 - 1\<close> it stands for.
\<close>

definition float_to_int :: "config \<Rightarrow> float \<Rightarrow> int" where
  "float_to_int cfg x =
     (case x of
        Fin k \<Rightarrow> if int_range (truncated k) then truncated k
                 else wrap_int (undefined_float_to_int cfg x)
      | _ \<Rightarrow> wrap_int (undefined_float_to_int cfg x))"

definition float_to_unsigned :: "config \<Rightarrow> float \<Rightarrow> int" where
  "float_to_unsigned cfg x =
     (case x of
        Fin k \<Rightarrow> if 0 \<le> truncated k \<and> truncated k < 2 ^ 32 then truncated k
                 else undefined_float_to_unsigned cfg x mod 2 ^ 32
      | _ \<Rightarrow> undefined_float_to_unsigned cfg x mod 2 ^ 32)"

subsection \<open>Output to the HID libraries\<close>

datatype hid_call =
    Mouse_move int int
  | Mouse_set_buttons bool bool bool
  | Keyboard_press int
  | Keyboard_release int
  | Joystick_X int
  | Joystick_Y int
  | Joystick_sliderLeft int
  | Joystick_Zrotate int
  | Delay nat

subsection \<open>Global state of the motion code\<close>

record state =
  unwindAccumulator :: "int \<times> int"
  inMove :: bool
  motionStartIndex :: int
  hid :: "hid_call list"

definition initial_state :: state where
  "initial_state =
     \<lparr> unwindAccumulator = (0, 0), inMove = False, motionStartIndex = - 1, hid = [] \<rparr>"

definition emit :: "hid_call \<Rightarrow> state \<Rightarrow> state" where
  "emit c s = s\<lparr>hid := hid s @ [c]\<rparr>"

subsection \<open>The unwind engine\<close>

definition max_step :: "config \<Rightarrow> int \<Rightarrow> int" where
  "max_step cfg accum =
     (if accum > 0 then - min accum (max_unwind_step cfg)
      else if accum < 0 then min (max_unwind_step cfg) (- accum)
      else 0)"

text \<open>
  The \<^verbatim>\<open>while\<close> loop of \<^verbatim>\<open>doUnwind\<close>. Nothing in the source bounds it, so the result
  is an option: \<open>None\<close> is a loop that never ends.
\<close>

partial_function (option) doUnwind :: "config \<Rightarrow> state \<Rightarrow> state option" where
  "doUnwind cfg s =
     (if fst (unwindAccumulator s) \<noteq> 0 \<or> snd (unwindAccumulator s) \<noteq> 0 then
        let xMove = max_step cfg (fst (unwindAccumulator s));
            yMove = max_step cfg (snd (unwindAccumulator s));
            s1 = emit (Mouse_move xMove yMove) s;
            s2 = s1\<lparr>unwindAccumulator :=
                      (fst (unwindAccumulator s1) + xMove, snd (unwindAccumulator s1) + yMove)\<rparr>
        in doUnwind cfg s2
      else Some s)"

declare doUnwind.simps [code]

subsection \<open>Calibration and normalization\<close>

text \<open>
  One row of \<^verbatim>\<open>axisExtents\<close>: low value, center, high value. \<^verbatim>\<open>axisValues\<close> holds the
  raw samples of \<^verbatim>\<open>analogRead\<close>; both arrays have \<open>n_axes\<close> entries.
\<close>

type_synonym extents = "float \<times> float \<times> float"

definition orbit_rat_axisExtents :: "extents list" where
  "orbit_rat_axisExtents =
     [(float_of_int 3, float_of_int 520, float_of_int 1021),
      (float_of_int 6, float_of_int 498, float_of_int 1019),
      (float_of_int 3, float_of_int 530, float_of_int 1021),
      (float_of_int 2, float_of_int 513, float_of_int 1022)]"

definition normalize :: "float \<Rightarrow> float \<Rightarrow> float \<Rightarrow> float" where
  "normalize low val high = (let range = fsub high low in fdiv (fsub val low) range)"

text \<open>
  The body of the loop of \<^verbatim>\<open>normalizeSticks\<close>, for one axis. The sample is an \<^verbatim>\<open>int\<close>,
  converted to \<^verbatim>\<open>float\<close> for the comparison and for \<^verbatim>\<open>normalize\<close>.
\<close>

definition normalizeAxis :: "extents \<Rightarrow> int \<Rightarrow> float" where
  "normalizeAxis ext axisValue =
     (case ext of (low, center, high) \<Rightarrow>
        let n = (if flt (float_of_int axisValue) center
                 then fneg (fsub (float_of_int 1) (normalize low (float_of_int axisValue) center))
                 else normalize center (float_of_int axisValue) high)
        in fneg n)"

definition normalizeSticks :: "extents list \<Rightarrow> int list \<Rightarrow> float list" where
  "normalizeSticks axisExtents axisValues =
     map (\<lambda>i. normalizeAxis (axisExtents ! i) (axisValues ! i)) [0..<n_axes]"

text \<open>
  The calibration step of the Arduino \<^verbatim>\<open>setup()\<close>: the samples read at startup become
  the centers.
\<close>

definition calibrate :: "config \<Rightarrow> int list \<Rightarrow> extents list \<Rightarrow> extents list" where
  "calibrate cfg axisValues axisExtents =
     (if calibrate_on_startup cfg
      then map (\<lambda>i. case axisExtents ! i of
                       (low, center, high) \<Rightarrow> (low, float_of_int (axisValues ! i), high))
               [0..<n_axes]
      else axisExtents)"

subsection \<open>Joystick reports\<close>

definition to_joy :: "config \<Rightarrow> float \<Rightarrow> int" where
  "to_joy cfg val =
     float_to_unsigned cfg
       (fmul (fdiv (fadd val (float_of_int 1)) (float_of_int 2)) (float_of_int 1023))"

definition array_at :: "'a list \<Rightarrow> int \<Rightarrow> 'a option" where
  "array_at xs i = (if 0 \<le> i \<and> nat i < length xs then Some (xs ! nat i) else None)"

definition sendJoystick :: "config \<Rightarrow> float list \<Rightarrow> state \<Rightarrow> state option" where
  "sendJoystick cfg normalizedAxes s =
     do {
       a0 \<leftarrow> array_at normalizedAxes 0;
       a1 \<leftarrow> array_at normalizedAxes 1;
       a3 \<leftarrow> array_at normalizedAxes 3;
       a2 \<leftarrow> array_at normalizedAxes 2;
       Some (emit (Joystick_Zrotate (to_joy cfg a2)) (emit (Joystick_sliderLeft (to_joy cfg a3))
              (emit (Joystick_Y (to_joy cfg a1)) (emit (Joystick_X (to_joy cfg a0)) s))))
     }"

subsection \<open>Dead zone, buttons and keys\<close>

text \<open>The \<^verbatim>\<open>abs\<close> macro of the Arduino core: \<^verbatim>\<open>x > 0 ? x : -x\<close>.\<close>

definition arduino_abs :: "float \<Rightarrow> float" where
  "arduino_abs x = (if flt (Fin 0) x then x else fneg x)"

text \<open>\<^verbatim>\<open>&&\<close> reads the second axis only when the first is inside the dead zone.\<close>

definition checkDeadzone :: "config \<Rightarrow> float list \<Rightarrow> int \<Rightarrow> bool option" where
  "checkDeadzone cfg normalizedAxes startIndex =
     do {
       a \<leftarrow> array_at normalizedAxes startIndex;
       if flt (arduino_abs a) (deadzone cfg)
       then do { b \<leftarrow> array_at normalizedAxes (startIndex + 1);
                 Some (flt (arduino_abs b) (deadzone cfg)) }
       else Some False
     }"

definition setMouseButtons :: "config \<Rightarrow> int \<Rightarrow> state \<Rightarrow> state option" where
  "setMouseButtons cfg startIndex s =
     do {
       b \<leftarrow> array_at (stick_active_buttons cfg) (drop_bit 1 startIndex);
       case b of (left, middle, right) \<Rightarrow> Some (emit (Mouse_set_buttons left middle right) s)
     }"

definition setKeys :: "config \<Rightarrow> int \<Rightarrow> bool \<Rightarrow> state \<Rightarrow> state option" where
  "setKeys cfg startIndex press s =
     do {
       key \<leftarrow> array_at (stick_active_key cfg) (drop_bit 1 startIndex);
       if key = 0 then Some s
       else if press then Some (emit (Keyboard_press key) s)
       else Some (emit (Keyboard_release key) s)
     }"

subsection \<open>The motion state machine\<close>

text \<open>The branch of \<^verbatim>\<open>sendMouse\<close> taken when a move has stopped.\<close>

definition stop_move :: "config \<Rightarrow> state \<Rightarrow> state option" where
  "stop_move cfg s =
     do {
       s1 \<leftarrow> setKeys cfg (motionStartIndex s) False (emit (Mouse_set_buttons False False False) s);
       s2 \<leftarrow> doUnwind cfg (emit (Delay 10) s1);
       Some (s2\<lparr>inMove := False\<rparr>)
     }"

text \<open>
  The block \<^verbatim>\<open>if (!inMove) { ... }\<close>. The inner \<open>None\<close> is its \<^verbatim>\<open>return\<close>, when both
  sticks are in their dead zones.
\<close>

definition start_move :: "config \<Rightarrow> float list \<Rightarrow> state \<Rightarrow> state option option" where
  "start_move cfg normalizedAxes s =
     do {
       d0 \<leftarrow> checkDeadzone cfg normalizedAxes 0;
       chosen \<leftarrow> (if \<not> d0 then Some (Some 0)
                  else do { d2 \<leftarrow> checkDeadzone cfg normalizedAxes 2;
                            Some (if \<not> d2 then Some 2 else None) });
       case chosen of
         None \<Rightarrow> Some None
       | Some i \<Rightarrow>
           do {
             s1 \<leftarrow> setKeys cfg i True
                    (s\<lparr>motionStartIndex := i, unwindAccumulator := (0, 0), inMove := True\<rparr>);
             s2 \<leftarrow> setMouseButtons cfg i (emit (Delay 10) s1);
             Some (Some (emit (Delay 10) s2))
           }
     }"

text \<open>
  The tail of \<^verbatim>\<open>sendMouse\<close>: one move at the speed of the stick that started. The speed
  is an \<^verbatim>\<open>int\<close>, converted to \<^verbatim>\<open>float\<close> for the product; the product is truncated to an
  \<^verbatim>\<open>int\<close>; the sums of the accumulator wrap around where they overflow.
\<close>

definition move_mouse :: "config \<Rightarrow> float list \<Rightarrow> state \<Rightarrow> state option" where
  "move_mouse cfg normalizedAxes s =
     (let speed = (if motionStartIndex s = 0 then pan_speed cfg else orbit_speed cfg) in
      do {
        h \<leftarrow> array_at normalizedAxes (motionStartIndex s);
        v \<leftarrow> array_at normalizedAxes (motionStartIndex s + 1);
        let xMove = float_to_int cfg (fmul (float_of_int speed) h);
            yMove = float_to_int cfg (fmul (float_of_int speed) v);
            s1 = emit (Mouse_move xMove yMove) s
        in Some (s1\<lparr>unwindAccumulator :=
                      (wrap_int (fst (unwindAccumulator s1) + xMove),
                       wrap_int (snd (unwindAccumulator s1) + yMove))\<rparr>)
      })"

definition sendMouse :: "config \<Rightarrow> float list \<Rightarrow> state \<Rightarrow> state option" where
  "sendMouse cfg normalizedAxes s =
     do {
       stopped \<leftarrow> (if inMove s then checkDeadzone cfg normalizedAxes (motionStartIndex s)
                   else Some False);
       if stopped then stop_move cfg s
       else if \<not> inMove s then
         do {
           started \<leftarrow> start_move cfg normalizedAxes s;
           case started of
             None \<Rightarrow> Some s
           | Some s1 \<Rightarrow> move_mouse cfg normalizedAxes s1
         }
       else move_mouse cfg normalizedAxes s
     }"

text \<open>
  The ticks of \<^verbatim>\<open>loop()\<close> as far as the motion state machine sees them: one call of
  \<^verbatim>\<open>sendMouse\<close> for each tick, on the normalized axes of that tick.
\<close>

fun sendMouse_ticks :: "config \<Rightarrow> float list list \<Rightarrow> state \<Rightarrow> state option" where
  "sendMouse_ticks cfg [] s = Some s"
| "sendMouse_ticks cfg (normalizedAxes # ticks) s =
     do { s1 \<leftarrow> sendMouse cfg normalizedAxes s; sendMouse_ticks cfg ticks s1 }"

text \<open>One pass of \<^verbatim>\<open>loop()\<close> on the samples \<^verbatim>\<open>readSticks\<close> returns.\<close>

definition loop :: "config \<Rightarrow> extents list \<Rightarrow> int list \<Rightarrow> state \<Rightarrow> state option" where
  "loop cfg axisExtents axisValues s =
     (let normalizedAxes = normalizeSticks axisExtents axisValues in
      do {
        s1 \<leftarrow> (if send_joystick_hid cfg then sendJoystick cfg normalizedAxes s else Some s);
        s2 \<leftarrow> sendMouse cfg normalizedAxes s1;
        Some (emit (Delay 10) s2)
      })"

text \<open>A run of \<^verbatim>\<open>loop()\<close>: one pass for each tick, on the samples of that tick.\<close>

fun loop_ticks :: "config \<Rightarrow> extents list \<Rightarrow> int list list \<Rightarrow> state \<Rightarrow> state option" where
  "loop_ticks cfg axisExtents [] s = Some s"
| "loop_ticks cfg axisExtents (axisValues # samples) s =
     do { s1 \<leftarrow> loop cfg axisExtents axisValues s; loop_ticks cfg axisExtents samples s1 }"

subsection \<open>Reading the HID trace\<close>

fun mouse_moves :: "hid_call list \<Rightarrow> (int \<times> int) list" where
  "mouse_moves [] = []"
| "mouse_moves (Mouse_move x y # cs) = (x, y) # mouse_moves cs"
| "mouse_moves (c # cs) = mouse_moves cs"

text \<open>The cursor displacement a trace adds up to.\<close>

definition displacement :: "hid_call list \<Rightarrow> int \<times> int" where
  "displacement cs = (sum_list (map fst (mouse_moves cs)), sum_list (map snd (mouse_moves cs)))"

text \<open>
  The displacement of the cursor from the point \<open>d\<close> stays in the range of an \<^verbatim>\<open>int\<close>
  after every move of the trace.
\<close>

fun stays_in_range :: "int \<times> int \<Rightarrow> hid_call list \<Rightarrow> bool" where
  "stays_in_range d [] = True"
| "stays_in_range d (Mouse_move x y # cs) =
     (int_range (fst d + x) \<and> int_range (snd d + y) \<and> stays_in_range (fst d + x, snd d + y) cs)"
| "stays_in_range d (c # cs) = stays_in_range d cs"


text \<open>The number of passes the specification gives for the unwind loop.\<close>

definition unwind_iterations :: "config \<Rightarrow> int \<times> int \<Rightarrow> int" where
  "unwind_iterations cfg acc =
     \<lceil>real_of_int (max \<bar>fst acc\<bar> \<bar>snd acc\<bar>) / real_of_int (max_unwind_step cfg)\<rceil>"

text \<open>States used to run the definitions.\<close>

definition example_state :: state where
  "example_state =
     \<lparr> unwindAccumulator = (250, - 30), inMove = True, motionStartIndex = 0, hid = [] \<rparr>"

text \<open>
  What a returning run of the unwind loop has done to the state: only mouse moves were
  emitted, they add up to the negated accumulator, and the accumulator is zero.
\<close>

definition unwound :: "state \<Rightarrow> state \<Rightarrow> bool" where
  "unwound s s' =
     (\<exists>ms. s' = s\<lparr>unwindAccumulator := (0, 0),
                   hid := hid s @ map (\<lambda>(x, y). Mouse_move x y) ms\<rparr>
         \<and> sum_list (map fst ms) = - fst (unwindAccumulator s)
         \<and> sum_list (map snd ms) = - snd (unwindAccumulator s))"

text \<open>The speed \<^verbatim>\<open>sendMouse\<close> chooses for the stick that started the move.\<close>

definition stick_speed :: "config \<Rightarrow> int \<Rightarrow> int" where
  "stick_speed cfg startIndex = (if startIndex = 0 then pan_speed cfg else orbit_speed cfg)"

text \<open>The displacement that is still to be unwound: the accumulator during a move.\<close>

definition pending :: "state \<Rightarrow> int \<times> int" where
  "pending s = (if inMove s then unwindAccumulator s else (0, 0))"

text \<open>The move \<^verbatim>\<open>sendMouse\<close> sends on a tick of a move started by the stick at \<open>startIndex\<close>.\<close>

definition follow :: "config \<Rightarrow> int \<Rightarrow> float list \<Rightarrow> int \<times> int" where
  "follow cfg startIndex normalizedAxes =
     (float_to_int cfg
        (fmul (float_of_int (stick_speed cfg startIndex)) (normalizedAxes ! nat startIndex)),
      float_to_int cfg
        (fmul (float_of_int (stick_speed cfg startIndex)) (normalizedAxes ! nat (startIndex + 1))))"

definition stopping_state :: state where
  "stopping_state =
     \<lparr> unwindAccumulator = (250, - 30), inMove = True, motionStartIndex = 2, hid = [] \<rparr>"

definition panning_state :: state where
  "panning_state =
     \<lparr> unwindAccumulator = (0, 0), inMove = True, motionStartIndex = 0, hid = [] \<rparr>"

text \<open>The invariant of the idle state.\<close>

definition idle_zero :: "state \<Rightarrow> bool" where
  "idle_zero s = (\<not> inMove s \<longrightarrow> unwindAccumulator s = (0, 0))"

text \<open>
  The tables of the configuration have one row for each stick, and the step is positive;
  a move in progress was started by one of the two sticks.
\<close>

definition config_ok :: "config \<Rightarrow> bool" where
  "config_ok cfg = (0 < max_unwind_step cfg \<and> length (stick_active_buttons cfg) = 2
                    \<and> length (stick_active_key cfg) = 2)"

definition origin_ok :: "state \<Rightarrow> bool" where
  "origin_ok s = (inMove s \<longrightarrow> motionStartIndex s = 0 \<or> motionStartIndex s = 2)"



definition orbit_gesture :: "int list list" where
  "orbit_gesture = [[520, 498, 100, 513], [520, 498, 100, 513], [520, 498, 530, 513]]"

definition orbit_gesture_end :: state where
  "orbit_gesture_end =
     \<lparr> unwindAccumulator = (0, 0), inMove = False, motionStartIndex = 2,
       hid = [Keyboard_press 7, Delay 10, Mouse_set_buttons False True False,
              Delay 10, Mouse_move (- 8) 0, Delay 10, Mouse_move (- 8) 0,
              Delay 10, Mouse_set_buttons False False False, Keyboard_release 7,
              Delay 10, Mouse_move 16 0, Delay 10] \<rparr>"


section \<open>Properties\<close>

subsection \<open>The unwind engine\<close>

lemma abs_max_step:
  "0 < max_unwind_step cfg \<Longrightarrow> \<bar>max_step cfg a\<bar> = min \<bar>a\<bar> (max_unwind_step cfg)"
  by (simp add: max_step_def min_def)

lemma abs_after_step:
  "0 < max_unwind_step cfg \<Longrightarrow> \<bar>a + max_step cfg a\<bar> = max 0 (\<bar>a\<bar> - max_unwind_step cfg)"
  by (simp add: max_step_def min_def max_def)

text \<open>
  No step of the loop overflows a 32-bit \<^verbatim>\<open>int\<close>, the accumulator \<open>- 2 ^ 31\<close> apart:
  negating it is the one overflow \<^verbatim>\<open>max_step\<close> can make.
\<close>

lemma max_step_no_overflow:
  assumes "- (2 ^ 31) < a" and "int_range a" and "0 < max_unwind_step cfg"
  shows "int_range (- a)" and "int_range (max_step cfg a)" and "int_range (a + max_step cfg a)"
  using assms by (simp_all add: int_range_def max_step_def min_def)

lemma max_after_step:
  "0 < max_unwind_step cfg \<Longrightarrow>
   max \<bar>a + max_step cfg a\<bar> \<bar>b + max_step cfg b\<bar> = max 0 (max \<bar>a\<bar> \<bar>b\<bar> - max_unwind_step cfg)"
  by (simp only: abs_after_step) (simp add: max_def)

lemma ceiling_small: "0 < M \<Longrightarrow> M < m \<Longrightarrow> \<lceil>real_of_int M / real_of_int m\<rceil> = 1"
  by (intro ceiling_unique) simp_all

lemma iterations_zero: "unwind_iterations cfg (0, 0) = 0"
  by (simp add: unwind_iterations_def)

lemma iterations_step:
  assumes m: "0 < max_unwind_step cfg" and nz: "a \<noteq> 0 \<or> b \<noteq> 0"
  shows "unwind_iterations cfg (a + max_step cfg a, b + max_step cfg b) + 1 =
         unwind_iterations cfg (a, b)"
proof -
  let ?m = "max_unwind_step cfg"
  let ?M = "max \<bar>a\<bar> \<bar>b\<bar>"
  have M: "0 < ?M" using nz by auto
  show ?thesis
  proof (cases "?m \<le> ?M")
    case True
    then have "max 0 (?M - ?m) = ?M - ?m" by simp
    moreover have "real_of_int (?M - ?m) / real_of_int ?m = real_of_int ?M / real_of_int ?m - 1"
      using m by (simp add: diff_divide_distrib)
    ultimately show ?thesis using m
      by (simp only: unwind_iterations_def max_after_step fst_conv snd_conv) simp
  next
    case False
    then have z: "max 0 (?M - ?m) = 0" by simp
    have lt: "?M < ?m" using False by linarith
    have "\<lceil>real_of_int ?M / real_of_int ?m\<rceil> = 1"
      by (rule ceiling_small[OF M lt])
    then show ?thesis using m z
      by (simp only: unwind_iterations_def max_after_step fst_conv snd_conv) simp
  qed
qed

text \<open>
  What the loop does, by induction on the larger of the two distances to zero: it ends,
  with the accumulator at zero, after emitting only mouse moves.
\<close>

lemma doUnwind_run:
  assumes m: "0 < max_unwind_step cfg"
  shows "\<exists>ms. doUnwind cfg s =
            Some (s\<lparr>unwindAccumulator := (0, 0),
                    hid := hid s @ map (\<lambda>(x, y). Mouse_move x y) ms\<rparr>)
     \<and> sum_list (map fst ms) = - fst (unwindAccumulator s)
     \<and> sum_list (map snd ms) = - snd (unwindAccumulator s)
     \<and> (\<forall>(x, y) \<in> set ms. \<bar>x\<bar> \<le> max_unwind_step cfg \<and> \<bar>y\<bar> \<le> max_unwind_step cfg)
     \<and> int (length ms) = unwind_iterations cfg (unwindAccumulator s)"
proof (induction "nat (max \<bar>fst (unwindAccumulator s)\<bar> \<bar>snd (unwindAccumulator s)\<bar>)"
         arbitrary: s rule: less_induct)
  case less
  obtain a b where ab: "unwindAccumulator s = (a, b)" by (cases "unwindAccumulator s")
  show ?case
  proof (cases "a \<noteq> 0 \<or> b \<noteq> 0")
    case False
    then have "doUnwind cfg s = Some s" using ab by (subst doUnwind.simps) simp
    moreover have "s\<lparr>unwindAccumulator := (0, 0), hid := hid s @ []\<rparr> = s" using ab False by simp
    ultimately show ?thesis using ab False
      by (intro exI[of _ "[]"]) (simp add: iterations_zero)
  next
    case True
    let ?x = "max_step cfg a" and ?y = "max_step cfg b"
    let ?s2 = "s\<lparr>hid := hid s @ [Mouse_move ?x ?y], unwindAccumulator := (a + ?x, b + ?y)\<rparr>"
    have step: "doUnwind cfg s = doUnwind cfg ?s2"
      using ab True by (subst doUnwind.simps) (simp add: Let_def emit_def)
    have pos: "0 < max (\<bar>a\<bar>) (\<bar>b\<bar>)" using True by auto
    have "max (\<bar>a + ?x\<bar>) (\<bar>b + ?y\<bar>) < max (\<bar>a\<bar>) (\<bar>b\<bar>)"
      using m pos by (simp only: max_after_step) simp
    then have "nat (max \<bar>fst (unwindAccumulator ?s2)\<bar> \<bar>snd (unwindAccumulator ?s2)\<bar>)
             < nat (max \<bar>fst (unwindAccumulator s)\<bar> \<bar>snd (unwindAccumulator s)\<bar>)"
      using ab pos by simp
    from less[OF this] obtain ms where
      r: "doUnwind cfg ?s2 =
            Some (?s2\<lparr>unwindAccumulator := (0, 0),
                      hid := hid ?s2 @ map (\<lambda>(x, y). Mouse_move x y) ms\<rparr>)"
      and sx: "sum_list (map fst ms) = - (a + ?x)" and sy: "sum_list (map snd ms) = - (b + ?y)"
      and bd: "\<forall>(x, y) \<in> set ms. \<bar>x\<bar> \<le> max_unwind_step cfg \<and> \<bar>y\<bar> \<le> max_unwind_step cfg"
      and ln: "int (length ms) = unwind_iterations cfg (a + ?x, b + ?y)"
      by auto
    have "doUnwind cfg s =
            Some (s\<lparr>unwindAccumulator := (0, 0),
                    hid := hid s @ map (\<lambda>(x, y). Mouse_move x y) ((?x, ?y) # ms)\<rparr>)"
      using step r by simp
    moreover have "\<bar>?x\<bar> \<le> max_unwind_step cfg" "\<bar>?y\<bar> \<le> max_unwind_step cfg"
      using m by (simp_all add: abs_max_step)
    moreover have "int (length ((?x, ?y) # ms)) = unwind_iterations cfg (a, b)"
      using ln iterations_step[OF m True] by simp
    ultimately show ?thesis using sx sy bd ab
      by (intro exI[of _ "(?x, ?y) # ms"]) simp
  qed
qed

lemma mouse_moves_map [simp]: "mouse_moves (map (\<lambda>(x, y). Mouse_move x y) ms) = ms"
  by (induction ms) auto

lemma mouse_moves_append [simp]: "mouse_moves (cs @ ds) = mouse_moves cs @ mouse_moves ds"
  by (induction cs rule: mouse_moves.induct) simp_all


text \<open>
  Claim C1. For every accumulator \<open>(ax, ay)\<close> and every positive step size, \<^verbatim>\<open>doUnwind\<close>
  returns, and the mouse moves it has emitted by then add up to \<open>(- ax, - ay)\<close>.
\<close>

theorem doUnwind_zero_sum:
  assumes "0 < max_unwind_step cfg"
  shows "\<exists>s' new. doUnwind cfg s = Some s' \<and> hid s' = hid s @ new
           \<and> displacement new = (- fst (unwindAccumulator s), - snd (unwindAccumulator s))"
proof -
  from doUnwind_run[OF assms, of s] obtain ms where
    "doUnwind cfg s = Some (s\<lparr>unwindAccumulator := (0, 0),
                              hid := hid s @ map (\<lambda>(x, y). Mouse_move x y) ms\<rparr>)"
    "sum_list (map fst ms) = - fst (unwindAccumulator s)"
    "sum_list (map snd ms) = - snd (unwindAccumulator s)"
    by blast
  then show ?thesis by (simp add: displacement_def)
qed

theorem doUnwind_zero_sum_witness:
  "0 < max_unwind_step (orbit_rat_config 0)
   \<and> (\<exists>s' new. doUnwind (orbit_rat_config 0) example_state = Some s'
         \<and> hid s' = new \<and> displacement new = (- 250, 30))"
  using doUnwind_zero_sum[of "orbit_rat_config 0" example_state]
  by (simp add: orbit_rat_config_def example_state_def)

text \<open>
  Claim C3. For every starting accumulator and every positive step size, \<^verbatim>\<open>doUnwind\<close>
  returns and each mouse move \<open>(dx, dy)\<close> it has emitted has \<open>\<bar>dx\<bar>\<close> and \<open>\<bar>dy\<bar>\<close> at
  most the step size.
\<close>

theorem doUnwind_step_bound:
  assumes "0 < max_unwind_step cfg"
  shows "\<exists>s' new. doUnwind cfg s = Some s' \<and> hid s' = hid s @ new
           \<and> (\<forall>(dx, dy) \<in> set (mouse_moves new).
                 \<bar>dx\<bar> \<le> max_unwind_step cfg \<and> \<bar>dy\<bar> \<le> max_unwind_step cfg)"
proof -
  from doUnwind_run[OF assms, of s] obtain ms where
    "doUnwind cfg s = Some (s\<lparr>unwindAccumulator := (0, 0),
                              hid := hid s @ map (\<lambda>(x, y). Mouse_move x y) ms\<rparr>)"
    "\<forall>(x, y) \<in> set ms. \<bar>x\<bar> \<le> max_unwind_step cfg \<and> \<bar>y\<bar> \<le> max_unwind_step cfg"
    by blast
  then show ?thesis by simp
qed

theorem doUnwind_step_bound_witness:
  "0 < max_unwind_step (orbit_rat_config 0)
   \<and> (\<exists>s' new. doUnwind (orbit_rat_config 0) example_state = Some s' \<and> hid s' = new
         \<and> list_all (\<lambda>(dx, dy). \<bar>dx\<bar> \<le> 100 \<and> \<bar>dy\<bar> \<le> 100) (mouse_moves new))"
  using doUnwind_step_bound[of "orbit_rat_config 0" example_state]
  by (simp add: orbit_rat_config_def example_state_def list_all_iff)

text \<open>
  Claim C4. For every accumulator \<open>(ax, ay)\<close> and every positive step size \<open>m\<close>, the loop
  of \<^verbatim>\<open>doUnwind\<close> ends with both axes at zero after \<open>\<lceil>max \<bar>ax\<bar> \<bar>ay\<bar> / m\<rceil>\<close> passes. Each
  pass calls \<^verbatim>\<open>Mouse.move\<close> once and nothing else, so the passes are the calls emitted;
  and a pass never moves an axis away from zero, whatever the accumulator \<open>a\<close> of that
  axis is.
\<close>

theorem doUnwind_iterations:
  assumes "0 < max_unwind_step cfg"
  shows "\<exists>s' ms. doUnwind cfg s = Some s'
           \<and> unwindAccumulator s' = (0, 0)
           \<and> hid s' = hid s @ map (\<lambda>(x, y). Mouse_move x y) ms
           \<and> int (length ms) =
               \<lceil>real_of_int (max \<bar>fst (unwindAccumulator s)\<bar> \<bar>snd (unwindAccumulator s)\<bar>)
                 / real_of_int (max_unwind_step cfg)\<rceil>
           \<and> (\<forall>a. \<bar>a + max_step cfg a\<bar> \<le> \<bar>a\<bar>)"
proof -
  from doUnwind_run[OF assms, of s] obtain ms where
    "doUnwind cfg s = Some (s\<lparr>unwindAccumulator := (0, 0),
                              hid := hid s @ map (\<lambda>(x, y). Mouse_move x y) ms\<rparr>)"
    "int (length ms) = unwind_iterations cfg (unwindAccumulator s)"
    by blast
  then show ?thesis using assms
    by (intro exI[of _ "s\<lparr>unwindAccumulator := (0, 0),
                              hid := hid s @ map (\<lambda>(x, y). Mouse_move x y) ms\<rparr>"] exI[of _ ms])
       (simp add: unwind_iterations_def abs_after_step)
qed

theorem doUnwind_iterations_witness:
  "0 < max_unwind_step (orbit_rat_config 0)
   \<and> (\<exists>s' ms. doUnwind (orbit_rat_config 0) example_state = Some s'
         \<and> unwindAccumulator s' = (0, 0)
         \<and> hid s' = map (\<lambda>(x, y). Mouse_move x y) ms
         \<and> length ms = 3)"
proof -
  have "\<lceil>real_of_int 250 / real_of_int 100\<rceil> = (3::int)"
    by (simp add: ceiling_eq_iff)
  then show ?thesis
    using doUnwind_iterations[of "orbit_rat_config 0" example_state]
    by (simp add: orbit_rat_config_def example_state_def) blast
qed

subsection \<open>The motion state machine, branch by branch\<close>

lemma unwound_refl: "unwindAccumulator s = (0, 0) \<Longrightarrow> unwound s s"
  unfolding unwound_def by (intro exI[of _ "[]"]) simp

lemma unwound_step:
  assumes "unwound (s\<lparr>hid := hid s @ [Mouse_move x y],
                      unwindAccumulator := (fst (unwindAccumulator s) + x, snd (unwindAccumulator s) + y)\<rparr>) s'"
  shows "unwound s s'"
proof -
  let ?t = "s\<lparr>hid := hid s @ [Mouse_move x y],
              unwindAccumulator := (fst (unwindAccumulator s) + x, snd (unwindAccumulator s) + y)\<rparr>"
  from assms obtain ms where
    s': "s' = ?t\<lparr>unwindAccumulator := (0, 0), hid := hid ?t @ map (\<lambda>(x, y). Mouse_move x y) ms\<rparr>"
    and sx: "sum_list (map fst ms) = - fst (unwindAccumulator ?t)"
    and sy: "sum_list (map snd ms) = - snd (unwindAccumulator ?t)"
    unfolding unwound_def by blast
  have "s' = s\<lparr>unwindAccumulator := (0, 0),
                 hid := hid s @ map (\<lambda>(x, y). Mouse_move x y) ((x, y) # ms)\<rparr>"
    by (subst s') simp
  moreover have "sum_list (map fst ((x, y) # ms)) = - fst (unwindAccumulator s)"
    using sx by simp
  moreover have "sum_list (map snd ((x, y) # ms)) = - snd (unwindAccumulator s)"
    using sy by simp
  ultimately show ?thesis unfolding unwound_def by blast
qed

lemma doUnwind_Some:
  assumes "doUnwind cfg s = Some s'"
  shows "unwound s s'"
proof (rule doUnwind.raw_induct[where P = "\<lambda>cfg s s'. unwound s s'", OF _ assms])
  fix doUnwind' cfg s s'
  assume IH: "\<And>c t t'. doUnwind' c t = Some t' \<Longrightarrow> unwound t t'"
    and body: "(if fst (unwindAccumulator s) \<noteq> 0 \<or> snd (unwindAccumulator s) \<noteq> 0
      then let xMove = max_step cfg (fst (unwindAccumulator s));
               yMove = max_step cfg (snd (unwindAccumulator s));
               s1 = emit (Mouse_move xMove yMove) s
           in Let (s1\<lparr>unwindAccumulator :=
                        (fst (unwindAccumulator s1) + xMove,
                         snd (unwindAccumulator s1) + yMove)\<rparr>)
               (doUnwind' cfg)
      else Some s) = Some s'"
  show "unwound s s'"
  proof (cases "fst (unwindAccumulator s) \<noteq> 0 \<or> snd (unwindAccumulator s) \<noteq> 0")
    case False
    with body have "s' = s" by simp
    moreover from False have "unwindAccumulator s = (0, 0)" by (simp add: prod_eq_iff)
    ultimately show ?thesis by (simp add: unwound_refl)
  next
    case True
    with body have "doUnwind' cfg (s\<lparr>hid := hid s @ [Mouse_move (max_step cfg (fst (unwindAccumulator s))) (max_step cfg (snd (unwindAccumulator s)))],
        unwindAccumulator := (fst (unwindAccumulator s) + max_step cfg (fst (unwindAccumulator s)),
                              snd (unwindAccumulator s) + max_step cfg (snd (unwindAccumulator s)))\<rparr>) = Some s'"
      by (simp add: Let_def emit_def)
    then have "unwound (s\<lparr>hid := hid s @ [Mouse_move (max_step cfg (fst (unwindAccumulator s))) (max_step cfg (snd (unwindAccumulator s)))],
        unwindAccumulator := (fst (unwindAccumulator s) + max_step cfg (fst (unwindAccumulator s)),
                              snd (unwindAccumulator s) + max_step cfg (snd (unwindAccumulator s)))\<rparr>) s'"
      by (rule IH)
    then show ?thesis by (rule unwound_step)
  qed
qed


lemma sendMouse_cases [consumes 1, case_names stop idle start steady]:
  assumes "sendMouse cfg axes s = Some s'"
  obtains
    (stop) "inMove s" and "checkDeadzone cfg axes (motionStartIndex s) = Some True"
      and "stop_move cfg s = Some s'"
  | (idle) "\<not> inMove s" and "start_move cfg axes s = Some None" and "s' = s"
  | (start) s1 where "\<not> inMove s" and "start_move cfg axes s = Some (Some s1)"
      and "move_mouse cfg axes s1 = Some s'"
  | (steady) "inMove s" and "checkDeadzone cfg axes (motionStartIndex s) = Some False"
      and "move_mouse cfg axes s = Some s'"
proof -
  from assms obtain stopped where
    st: "(if inMove s then checkDeadzone cfg axes (motionStartIndex s) else Some False)
           = Some stopped"
    and rest: "(if stopped then stop_move cfg s
                else if \<not> inMove s then
                  do { started \<leftarrow> start_move cfg axes s;
                       case started of None \<Rightarrow> Some s
                       | Some s1 \<Rightarrow> move_mouse cfg axes s1 }
                else move_mouse cfg axes s) = Some s'"
    unfolding sendMouse_def Option.bind_eq_Some_conv by blast
  show thesis
  proof (cases "inMove s")
    case True
    with st have cd: "checkDeadzone cfg axes (motionStartIndex s) = Some stopped" by simp
    show thesis
    proof (cases stopped)
      case True
      with rest have "stop_move cfg s = Some s'" by simp
      with \<open>inMove s\<close> cd True show thesis by (intro stop) simp_all
    next
      case False
      with rest \<open>inMove s\<close> have "move_mouse cfg axes s = Some s'" by simp
      with \<open>inMove s\<close> cd False show thesis by (intro steady) simp_all
    qed
  next
    case False
    with st have "\<not> stopped" by simp
    with rest False obtain started where
      sm: "start_move cfg axes s = Some started"
      and c: "(case started of None \<Rightarrow> Some s | Some s1 \<Rightarrow> move_mouse cfg axes s1) = Some s'"
      by (simp add: Option.bind_eq_Some_conv) blast
    show thesis
    proof (cases started)
      case None
      with c sm False show thesis by (intro idle) simp_all
    next
      case (Some s1)
      with c sm False show thesis by (intro start[of s1]) simp_all
    qed
  qed
qed

lemma setKeys_Some:
  assumes "setKeys cfg i press s = Some s'"
  shows "\<exists>evs. s' = s\<lparr>hid := hid s @ evs\<rparr> \<and> mouse_moves evs = []"
proof -
  from assms obtain key where
    k: "(if key = 0 then Some s
         else if press then Some (emit (Keyboard_press key) s)
         else Some (emit (Keyboard_release key) s)) = Some s'"
    unfolding setKeys_def Option.bind_eq_Some_conv by blast
  show ?thesis
  proof (cases "key = 0")
    case True
    with k have "s' = s" by simp
    then show ?thesis by (intro exI[of _ "[]"]) simp
  next
    case False
    with k have "s' = emit (if press then Keyboard_press key else Keyboard_release key) s"
      by (simp split: if_splits)
    then show ?thesis
      by (intro exI[of _ "[if press then Keyboard_press key else Keyboard_release key]"])
         (simp add: emit_def)
  qed
qed

lemma setMouseButtons_Some:
  assumes "setMouseButtons cfg i s = Some s'"
  shows "\<exists>evs. s' = s\<lparr>hid := hid s @ evs\<rparr> \<and> mouse_moves evs = []"
proof -
  from assms obtain b where
    "(case b of (left, middle, right) \<Rightarrow> Some (emit (Mouse_set_buttons left middle right) s))
       = Some s'"
    unfolding setMouseButtons_def Option.bind_eq_Some_conv by blast
  then have "s' = emit (Mouse_set_buttons (fst b) (fst (snd b)) (snd (snd b))) s"
    by (simp add: case_prod_beta)
  then show ?thesis
    by (intro exI[of _ "[Mouse_set_buttons (fst b) (fst (snd b)) (snd (snd b))]"])
       (simp add: emit_def)
qed

lemma move_mouse_eq:
  assumes "array_at axes (motionStartIndex s) = Some h"
    and "array_at axes (motionStartIndex s + 1) = Some v"
  shows "move_mouse cfg axes s =
           Some (s\<lparr>hid := hid s @
                     [Mouse_move
                        (float_to_int cfg
                           (fmul (float_of_int (stick_speed cfg (motionStartIndex s))) h))
                        (float_to_int cfg
                           (fmul (float_of_int (stick_speed cfg (motionStartIndex s))) v))],
                   unwindAccumulator :=
                     (wrap_int (fst (unwindAccumulator s) + float_to_int cfg
                        (fmul (float_of_int (stick_speed cfg (motionStartIndex s))) h)),
                      wrap_int (snd (unwindAccumulator s) + float_to_int cfg
                        (fmul (float_of_int (stick_speed cfg (motionStartIndex s))) v)))\<rparr>)"
  unfolding move_mouse_def stick_speed_def Let_def using assms by (simp add: emit_def)

lemma move_mouse_Some:
  assumes "move_mouse cfg axes s = Some s'"
  shows "\<exists>x y. s' = s\<lparr>hid := hid s @ [Mouse_move x y],
                        unwindAccumulator := (wrap_int (fst (unwindAccumulator s) + x),
                                              wrap_int (snd (unwindAccumulator s) + y))\<rparr>"
proof -
  from assms obtain h v where
    "array_at axes (motionStartIndex s) = Some h"
    "array_at axes (motionStartIndex s + 1) = Some v"
    unfolding move_mouse_def Let_def Option.bind_eq_Some_conv by blast
  from move_mouse_eq[OF this, of cfg] assms show ?thesis by auto
qed

lemma start_move_Some:
  assumes "start_move cfg axes s = Some (Some s1)"
  shows "\<exists>i evs. (i = 0 \<or> i = 2)
           \<and> s1 = s\<lparr>motionStartIndex := i, unwindAccumulator := (0, 0), inMove := True,
                     hid := hid s @ evs\<rparr>
           \<and> mouse_moves evs = []"
proof -
  from assms obtain d0 chosen where
    ch: "(if \<not> d0 then Some (Some 0)
          else do { d2 \<leftarrow> checkDeadzone cfg axes 2;
                    Some (if \<not> d2 then Some 2 else None) }) = Some chosen"
    and r: "(case chosen of None \<Rightarrow> Some None
             | Some i \<Rightarrow>
                 do { s1 \<leftarrow> setKeys cfg i True
                        (s\<lparr>motionStartIndex := i, unwindAccumulator := (0, 0), inMove := True\<rparr>);
                      s2 \<leftarrow> setMouseButtons cfg i (emit (Delay 10) s1);
                      Some (Some (emit (Delay 10) s2)) }) = Some (Some s1)"
    unfolding start_move_def Option.bind_eq_Some_conv by blast
  from r obtain i where c: "chosen = Some i" by (cases chosen) simp_all
  from ch c have i: "i = 0 \<or> i = 2"
    by (auto simp: Option.bind_eq_Some_conv split: if_splits)
  from r c obtain t1 t2 where
    t1: "setKeys cfg i True
           (s\<lparr>motionStartIndex := i, unwindAccumulator := (0, 0), inMove := True\<rparr>) = Some t1"
    and t2: "setMouseButtons cfg i (emit (Delay 10) t1) = Some t2"
    and s1: "s1 = emit (Delay 10) t2"
    by (simp add: Option.bind_eq_Some_conv) blast
  from setKeys_Some[OF t1] obtain e1 where
    e1: "t1 = s\<lparr>motionStartIndex := i, unwindAccumulator := (0, 0), inMove := True\<rparr>
               \<lparr>hid := hid (s\<lparr>motionStartIndex := i, unwindAccumulator := (0, 0),
                               inMove := True\<rparr>) @ e1\<rparr>"
        "mouse_moves e1 = []"
    by blast
  from setMouseButtons_Some[OF t2] obtain e2 where
    e2: "t2 = (emit (Delay 10) t1)\<lparr>hid := hid (emit (Delay 10) t1) @ e2\<rparr>" "mouse_moves e2 = []"
    by blast
  have "s1 = s\<lparr>motionStartIndex := i, unwindAccumulator := (0, 0), inMove := True,
                 hid := hid s @ (e1 @ [Delay 10] @ e2 @ [Delay 10])\<rparr>"
    by (simp add: s1 e2(1) e1(1) emit_def)
  moreover have "mouse_moves (e1 @ [Delay 10] @ e2 @ [Delay 10]) = []"
    using e1(2) e2(2) by simp
  ultimately show ?thesis using i by blast
qed

lemma stop_move_Some:
  assumes "stop_move cfg s = Some s'"
  shows "\<exists>evs ms. s' = s\<lparr>unwindAccumulator := (0, 0), inMove := False,
                          hid := hid s @ evs @ map (\<lambda>(x, y). Mouse_move x y) ms\<rparr>
           \<and> mouse_moves evs = []
           \<and> sum_list (map fst ms) = - fst (unwindAccumulator s)
           \<and> sum_list (map snd ms) = - snd (unwindAccumulator s)"
proof -
  from assms obtain t1 t2 where
    t1: "setKeys cfg (motionStartIndex s) False
           (emit (Mouse_set_buttons False False False) s) = Some t1"
    and t2: "doUnwind cfg (emit (Delay 10) t1) = Some t2"
    and s': "s' = t2\<lparr>inMove := False\<rparr>"
    unfolding stop_move_def Option.bind_eq_Some_conv by blast
  from setKeys_Some[OF t1] obtain e1 where
    "t1 = (emit (Mouse_set_buttons False False False) s)
             \<lparr>hid := hid (emit (Mouse_set_buttons False False False) s) @ e1\<rparr>"
    and e12: "mouse_moves e1 = []"
    by blast
  then have e11: "t1 = s\<lparr>hid := hid s @ [Mouse_set_buttons False False False] @ e1\<rparr>"
    by (simp add: emit_def)
  note e1 = e11 e12
  from doUnwind_Some[OF t2] obtain ms where
    ms: "t2 = (emit (Delay 10) t1)\<lparr>unwindAccumulator := (0, 0),
               hid := hid (emit (Delay 10) t1) @ map (\<lambda>(x, y). Mouse_move x y) ms\<rparr>"
      "sum_list (map fst ms) = - fst (unwindAccumulator (emit (Delay 10) t1))"
      "sum_list (map snd ms) = - snd (unwindAccumulator (emit (Delay 10) t1))"
    unfolding unwound_def by blast
  let ?evs = "[Mouse_set_buttons False False False] @ e1 @ [Delay 10]"
  have "s' = s\<lparr>unwindAccumulator := (0, 0), inMove := False,
                 hid := hid s @ ?evs @ map (\<lambda>(x, y). Mouse_move x y) ms\<rparr>"
    by (simp add: s' ms(1) e1(1) emit_def)
  moreover have "mouse_moves ?evs = []" using e1(2) by simp
  moreover have "sum_list (map fst ms) = - fst (unwindAccumulator s)"
    "sum_list (map snd ms) = - snd (unwindAccumulator s)"
    using ms(2,3) by (simp_all add: e1(1) emit_def)
  ultimately show ?thesis by blast
qed

lemma array_at_stick:
  assumes "length axes = n_axes" and "i = 0 \<or> i = 2"
  shows "array_at axes i = Some (axes ! nat i)" and "array_at axes (i + 1) = Some (axes ! nat (i + 1))"
  using assms by (auto simp: array_at_def n_axes_def)

lemma checkDeadzone_eq:
  assumes "length axes = n_axes" and "i = 0 \<or> i = 2"
  shows "checkDeadzone cfg axes i =
           Some (flt (arduino_abs (axes ! nat i)) (deadzone cfg)
                 \<and> flt (arduino_abs (axes ! nat (i + 1))) (deadzone cfg))"
  unfolding checkDeadzone_def by (simp add: array_at_stick[OF assms])

lemma sendMouse_stop:
  assumes "inMove s" and "checkDeadzone cfg axes (motionStartIndex s) = Some True"
  shows "sendMouse cfg axes s = stop_move cfg s"
  unfolding sendMouse_def using assms by simp

lemma sendMouse_steady:
  assumes "inMove s" and "checkDeadzone cfg axes (motionStartIndex s) = Some False"
  shows "sendMouse cfg axes s = move_mouse cfg axes s"
  unfolding sendMouse_def using assms by simp

lemma steady_tick:
  assumes "inMove s" and "motionStartIndex s = i" and "i = 0 \<or> i = 2"
    and "length t = n_axes" and "checkDeadzone cfg t i = Some False"
  shows "sendMouse cfg t s =
           Some (s\<lparr>hid := hid s @ [Mouse_move (fst (follow cfg i t)) (snd (follow cfg i t))],
                   unwindAccumulator :=
                     (wrap_int (fst (unwindAccumulator s) + fst (follow cfg i t)),
                      wrap_int (snd (unwindAccumulator s) + snd (follow cfg i t)))\<rparr>)"
proof -
  have "sendMouse cfg t s = move_mouse cfg t s"
    using assms(1,2,5) by (intro sendMouse_steady) simp_all
  also have "\<dots> = Some (s\<lparr>hid := hid s @ [Mouse_move (fst (follow cfg i t)) (snd (follow cfg i t))],
                   unwindAccumulator :=
                     (wrap_int (fst (unwindAccumulator s) + fst (follow cfg i t)),
                      wrap_int (snd (unwindAccumulator s) + snd (follow cfg i t)))\<rparr>)"
    using move_mouse_eq[of t s "t ! nat i" "t ! nat (i + 1)" cfg]
      array_at_stick[OF assms(4,3)] assms(2)
    by (simp add: follow_def)
  finally show ?thesis .
qed

lemma steady_ticks:
  assumes "i = 0 \<or> i = 2"
  shows "inMove s \<Longrightarrow> motionStartIndex s = i \<Longrightarrow>
     \<forall>t \<in> set ticks. length t = n_axes \<and> checkDeadzone cfg t i = Some False \<Longrightarrow>
     sendMouse_ticks cfg ticks s =
       Some (s\<lparr>hid := hid s @ map (\<lambda>t. Mouse_move (fst (follow cfg i t)) (snd (follow cfg i t))) ticks,
               unwindAccumulator :=
                 (foldl (\<lambda>a x. wrap_int (a + x)) (fst (unwindAccumulator s))
                    (map (\<lambda>t. fst (follow cfg i t)) ticks),
                  foldl (\<lambda>a x. wrap_int (a + x)) (snd (unwindAccumulator s))
                    (map (\<lambda>t. snd (follow cfg i t)) ticks))\<rparr>)"
proof (induction ticks arbitrary: s)
  case Nil
  then show ?case by simp
next
  case (Cons t ticks)
  let ?s1 = "s\<lparr>hid := hid s @ [Mouse_move (fst (follow cfg i t)) (snd (follow cfg i t))],
                unwindAccumulator :=
                  (wrap_int (fst (unwindAccumulator s) + fst (follow cfg i t)),
                   wrap_int (snd (unwindAccumulator s) + snd (follow cfg i t)))\<rparr>"
  have t: "sendMouse cfg t s = Some ?s1"
    using Cons.prems assms by (intro steady_tick) simp_all
  have "sendMouse_ticks cfg ticks ?s1 =
       Some (?s1\<lparr>hid := hid ?s1 @ map (\<lambda>t. Mouse_move (fst (follow cfg i t)) (snd (follow cfg i t))) ticks,
               unwindAccumulator :=
                 (foldl (\<lambda>a x. wrap_int (a + x)) (fst (unwindAccumulator ?s1))
                    (map (\<lambda>t. fst (follow cfg i t)) ticks),
                  foldl (\<lambda>a x. wrap_int (a + x)) (snd (unwindAccumulator ?s1))
                    (map (\<lambda>t. snd (follow cfg i t)) ticks))\<rparr>)"
    using Cons.prems by (intro Cons.IH) simp_all
  then show ?case by (simp add: t)
qed

lemma follow_moves_cong:
  assumes "list_all2 (\<lambda>t t'. length t' = n_axes \<and> t' ! nat i = t ! nat i
                              \<and> t' ! nat (i + 1) = t ! nat (i + 1)) ticks ticks'"
  shows "map (follow cfg i) ticks' = map (follow cfg i) ticks"
  using assms by (induction rule: list_all2_induct) (simp_all add: follow_def)

text \<open>
  Claim C7. Take a move in progress that the stick at \<open>i\<close> started, and any ticks on
  which that stick stays outside its dead zone. The run returns; the move is still in
  progress and still belongs to the stick at \<open>i\<close>; the calls emitted are one mouse move
  for each tick, computed from the two axes of that stick, and no button or key call; and
  the ticks \<open>ticks'\<close>, which differ from \<open>ticks\<close> on the axes of the other stick only, end
  in the very same state.
\<close>

theorem origin_exclusive:
  assumes "inMove s" and "motionStartIndex s = i" and "i = 0 \<or> i = 2"
    and "\<forall>t \<in> set ticks. length t = n_axes \<and> checkDeadzone cfg t i = Some False"
    and "list_all2 (\<lambda>t t'. length t' = n_axes \<and> t' ! nat i = t ! nat i
                              \<and> t' ! nat (i + 1) = t ! nat (i + 1)) ticks ticks'"
  shows "\<exists>s'. sendMouse_ticks cfg ticks s = Some s'
             \<and> sendMouse_ticks cfg ticks' s = Some s'
             \<and> inMove s' \<and> motionStartIndex s' = i
             \<and> hid s' = hid s @ map (\<lambda>t. Mouse_move (fst (follow cfg i t)) (snd (follow cfg i t))) ticks"
proof -
  let ?f = "\<lambda>t. Mouse_move (fst (follow cfg i t)) (snd (follow cfg i t))"
  let ?s' = "s\<lparr>hid := hid s @ map ?f ticks,
               unwindAccumulator :=
                 (foldl (\<lambda>a x. wrap_int (a + x)) (fst (unwindAccumulator s))
                    (map (\<lambda>t. fst (follow cfg i t)) ticks),
                  foldl (\<lambda>a x. wrap_int (a + x)) (snd (unwindAccumulator s))
                    (map (\<lambda>t. snd (follow cfg i t)) ticks))\<rparr>"
  have a: "sendMouse_ticks cfg ticks s = Some ?s'"
    using assms(1,2,4) by (intro steady_ticks[OF assms(3)]) simp_all
  have out': "\<forall>t' \<in> set ticks'. length t' = n_axes \<and> checkDeadzone cfg t' i = Some False"
  proof
    fix t' assume "t' \<in> set ticks'"
    then obtain n where n: "n < length ticks'" "ticks' ! n = t'"
      by (auto simp: in_set_conv_nth)
    from assms(5) have len: "length ticks = length ticks'"
      by (rule list_all2_lengthD)
    from assms(5) n(1) len have
      "length (ticks' ! n) = n_axes \<and> ticks' ! n ! nat i = ticks ! n ! nat i
         \<and> ticks' ! n ! nat (i + 1) = ticks ! n ! nat (i + 1)"
      by (simp add: list_all2_conv_all_nth)
    then have t: "length t' = n_axes" "t' ! nat i = ticks ! n ! nat i"
      "t' ! nat (i + 1) = ticks ! n ! nat (i + 1)"
      using n(2) by simp_all
    have "ticks ! n \<in> set ticks" using n(1) len by simp
    with assms(4) have "length (ticks ! n) = n_axes" "checkDeadzone cfg (ticks ! n) i = Some False"
      by simp_all
    then show "length t' = n_axes \<and> checkDeadzone cfg t' i = Some False"
      using t by (simp add: checkDeadzone_eq[OF _ assms(3)])
  qed
  have m: "map (follow cfg i) ticks' = map (follow cfg i) ticks"
    by (rule follow_moves_cong[OF assms(5)])
  have m1: "map ?f ticks' = map ?f ticks"
    using arg_cong[OF m, of "map (\<lambda>p. Mouse_move (fst p) (snd p))"] by (simp add: comp_def)
  have m2: "map (\<lambda>t. fst (follow cfg i t)) ticks' = map (\<lambda>t. fst (follow cfg i t)) ticks"
    using arg_cong[OF m, of "map fst"] by (simp add: comp_def)
  have m3: "map (\<lambda>t. snd (follow cfg i t)) ticks' = map (\<lambda>t. snd (follow cfg i t)) ticks"
    using arg_cong[OF m, of "map snd"] by (simp add: comp_def)
  have b: "sendMouse_ticks cfg ticks' s = Some ?s'"
    using steady_ticks[OF assms(3), of s ticks' cfg] assms(1,2) out' by (simp add: m1 m2 m3)
  show ?thesis using a b assms(1,2) by (intro exI[of _ ?s']) simp
qed

theorem origin_exclusive_witness:
  "inMove panning_state \<and> motionStartIndex panning_state = 0
   \<and> checkDeadzone (orbit_rat_config 7) [round_ratio 1 2, Fin 0, Fin 0, Fin 0] 0 = Some False
   \<and> checkDeadzone (orbit_rat_config 7) [round_ratio 1 2, round_ratio 1 10, Fin 0, Fin 0] 0
       = Some False
   \<and> list_all2 (\<lambda>t t'. length t' = n_axes \<and> t' ! nat 0 = t ! nat 0
                          \<and> t' ! nat (0 + 1) = t ! nat (0 + 1))
        [[round_ratio 1 2, Fin 0, Fin 0, Fin 0], [round_ratio 1 2, round_ratio 1 10, Fin 0, Fin 0]]
        [[round_ratio 1 2, Fin 0, float_of_int 1, NaN],
         [round_ratio 1 2, round_ratio 1 10, PInf, round_ratio 1 2]]
   \<and> (\<exists>s'. sendMouse_ticks (orbit_rat_config 7)
               [[round_ratio 1 2, Fin 0, Fin 0, Fin 0],
                [round_ratio 1 2, round_ratio 1 10, Fin 0, Fin 0]]
               panning_state = Some s'
          \<and> sendMouse_ticks (orbit_rat_config 7)
               [[round_ratio 1 2, Fin 0, float_of_int 1, NaN],
                [round_ratio 1 2, round_ratio 1 10, PInf, round_ratio 1 2]]
               panning_state = Some s'
          \<and> inMove s' \<and> motionStartIndex s' = 0
          \<and> hid s' = [Mouse_move (- 12) 0, Mouse_move (- 12) (- 2)])"
proof -
  have c: "checkDeadzone (orbit_rat_config 7) [round_ratio 1 2, Fin 0, Fin 0, Fin 0] 0 = Some False"
    "checkDeadzone (orbit_rat_config 7) [round_ratio 1 2, round_ratio 1 10, Fin 0, Fin 0] 0
       = Some False"
    by code_simp+
  have h: "inMove panning_state" "motionStartIndex panning_state = 0" "(0::int) = 0 \<or> (0::int) = 2"
    "\<forall>t \<in> set [[round_ratio 1 2, Fin 0, Fin 0, Fin 0],
                 [round_ratio 1 2, round_ratio 1 10, Fin 0, Fin 0]].
         length t = n_axes \<and> checkDeadzone (orbit_rat_config 7) t 0 = Some False"
    "list_all2 (\<lambda>t t'. length t' = n_axes \<and> t' ! nat 0 = t ! nat 0
                          \<and> t' ! nat (0 + 1) = t ! nat (0 + 1))
        [[round_ratio 1 2, Fin 0, Fin 0, Fin 0], [round_ratio 1 2, round_ratio 1 10, Fin 0, Fin 0]]
        [[round_ratio 1 2, Fin 0, float_of_int 1, NaN],
         [round_ratio 1 2, round_ratio 1 10, PInf, round_ratio 1 2]]"
    using c by (simp_all add: panning_state_def n_axes_def)
  have f: "follow (orbit_rat_config 7) 0 [round_ratio 1 2, Fin 0, Fin 0, Fin 0] = (- 12, 0)"
    "follow (orbit_rat_config 7) 0 [round_ratio 1 2, round_ratio 1 10, Fin 0, Fin 0] = (- 12, - 2)"
    by code_simp+
  from origin_exclusive[OF h] show ?thesis using h c by (simp add: f panning_state_def)
qed

text \<open>
  Claim C8. On a tick with a move in progress and the stick that started it back in its
  dead zone, \<^verbatim>\<open>sendMouse\<close> returns, for every positive step size; it has emitted, in this
  order, the release of the three mouse buttons, the release of the key of the stick when
  it has one (\<open>key \<noteq> 0\<close>), the delay, and the moves of the unwind loop, which add up to the
  negated accumulator; the accumulator is zero and the move is over. The axes decide
  nothing else on that tick: other axes with the stick in its dead zone give the same
  result.
\<close>

theorem stop_tick:
  assumes "0 < max_unwind_step cfg" and "inMove s"
    and "checkDeadzone cfg axes (motionStartIndex s) = Some True"
    and "array_at (stick_active_key cfg) (drop_bit 1 (motionStartIndex s)) = Some key"
  shows "\<exists>ms. sendMouse cfg axes s =
            Some (s\<lparr>unwindAccumulator := (0, 0), inMove := False,
                    hid := hid s @ [Mouse_set_buttons False False False]
                           @ (if key = 0 then [] else [Keyboard_release key])
                           @ [Delay 10] @ map (\<lambda>(x, y). Mouse_move x y) ms\<rparr>)
           \<and> sum_list (map fst ms) = - fst (unwindAccumulator s)
           \<and> sum_list (map snd ms) = - snd (unwindAccumulator s)
           \<and> (\<forall>axes'. checkDeadzone cfg axes' (motionStartIndex s) = Some True
                 \<longrightarrow> sendMouse cfg axes' s = sendMouse cfg axes s)"
proof -
  let ?k = "if key = 0 then [] else [Keyboard_release key]"
  let ?t1 = "s\<lparr>hid := hid s @ [Mouse_set_buttons False False False] @ ?k\<rparr>"
  have k: "setKeys cfg (motionStartIndex s) False (emit (Mouse_set_buttons False False False) s)
             = Some ?t1"
    unfolding setKeys_def using assms(4) by (simp add: emit_def)
  from doUnwind_run[OF assms(1), of "emit (Delay 10) ?t1"] obtain ms where
    u: "doUnwind cfg (emit (Delay 10) ?t1) =
          Some ((emit (Delay 10) ?t1)\<lparr>unwindAccumulator := (0, 0),
                  hid := hid (emit (Delay 10) ?t1) @ map (\<lambda>(x, y). Mouse_move x y) ms\<rparr>)"
    and sx: "sum_list (map fst ms) = - fst (unwindAccumulator (emit (Delay 10) ?t1))"
    and sy: "sum_list (map snd ms) = - snd (unwindAccumulator (emit (Delay 10) ?t1))"
    by blast
  have "stop_move cfg s =
          Some ((emit (Delay 10) ?t1)\<lparr>unwindAccumulator := (0, 0),
                  hid := hid (emit (Delay 10) ?t1) @ map (\<lambda>(x, y). Mouse_move x y) ms,
                  inMove := False\<rparr>)"
    unfolding stop_move_def by (simp only: k u Option.bind.bind_lunit)
  then have "stop_move cfg s =
          Some (s\<lparr>unwindAccumulator := (0, 0), inMove := False,
                  hid := hid s @ [Mouse_set_buttons False False False] @ ?k
                         @ [Delay 10] @ map (\<lambda>(x, y). Mouse_move x y) ms\<rparr>)"
    by (simp add: emit_def)
  moreover have "\<And>axes'. checkDeadzone cfg axes' (motionStartIndex s) = Some True
                   \<Longrightarrow> sendMouse cfg axes' s = stop_move cfg s"
    by (rule sendMouse_stop[OF assms(2)])
  moreover have "sum_list (map fst ms) = - fst (unwindAccumulator s)"
    "sum_list (map snd ms) = - snd (unwindAccumulator s)"
    using sx sy by (simp_all add: emit_def)
  ultimately show ?thesis using assms(3) by (intro exI[of _ ms]) simp
qed

theorem stop_tick_witness:
  "0 < max_unwind_step (orbit_rat_config 7) \<and> inMove stopping_state
   \<and> checkDeadzone (orbit_rat_config 7) [round_ratio 1 2, Fin 0, round_ratio 1 100, Fin 0]
        (motionStartIndex stopping_state) = Some True
   \<and> array_at (stick_active_key (orbit_rat_config 7))
        (drop_bit 1 (motionStartIndex stopping_state)) = Some 7
   \<and> (\<exists>ms. sendMouse (orbit_rat_config 7) [round_ratio 1 2, Fin 0, round_ratio 1 100, Fin 0]
               stopping_state =
            Some \<lparr> unwindAccumulator = (0, 0), inMove = False, motionStartIndex = 2,
                   hid = [Mouse_set_buttons False False False, Keyboard_release 7, Delay 10]
                         @ map (\<lambda>(x, y). Mouse_move x y) ms \<rparr>
          \<and> sum_list (map fst ms) = - 250 \<and> sum_list (map snd ms) = 30)"
proof -
  have c: "checkDeadzone (orbit_rat_config 7) [round_ratio 1 2, Fin 0, round_ratio 1 100, Fin 0] 2
             = Some True"
    by code_simp
  have h: "0 < max_unwind_step (orbit_rat_config 7)" "inMove stopping_state"
    "checkDeadzone (orbit_rat_config 7) [round_ratio 1 2, Fin 0, round_ratio 1 100, Fin 0]
       (motionStartIndex stopping_state) = Some True"
    "array_at (stick_active_key (orbit_rat_config 7))
        (drop_bit 1 (motionStartIndex stopping_state)) = Some 7"
    using c by (simp_all add: array_at_def orbit_rat_config_def stopping_state_def)
  from stop_tick[OF h] show ?thesis using h by (auto simp: stopping_state_def)
qed

subsection \<open>The motion state machine always returns\<close>

lemma setKeys_returns:
  assumes "config_ok cfg" and "i = 0 \<or> i = 2"
  shows "\<exists>s'. setKeys cfg i press s = Some s'"
proof -
  from assms have "\<exists>key. array_at (stick_active_key cfg) (drop_bit 1 i) = Some key"
    by (auto simp: array_at_def config_ok_def drop_bit_eq_div)
  then show ?thesis unfolding setKeys_def by auto
qed

lemma setMouseButtons_returns:
  assumes "config_ok cfg" and "i = 0 \<or> i = 2"
  shows "\<exists>s'. setMouseButtons cfg i s = Some s'"
proof -
  from assms have "array_at (stick_active_buttons cfg) (drop_bit 1 i)
                     = Some (stick_active_buttons cfg ! nat (drop_bit 1 i))"
    by (elim disjE; simp add: array_at_def config_ok_def drop_bit_eq_div)
  then show ?thesis unfolding setMouseButtons_def by (simp split: prod.splits)
qed

lemma move_mouse_returns:
  assumes "length axes = n_axes" and "motionStartIndex s = 0 \<or> motionStartIndex s = 2"
  shows "\<exists>s'. move_mouse cfg axes s = Some s' \<and> inMove s' = inMove s
              \<and> motionStartIndex s' = motionStartIndex s"
  using move_mouse_eq[OF array_at_stick[OF assms], of cfg] by simp

lemma stop_move_returns:
  assumes "config_ok cfg" and "motionStartIndex s = 0 \<or> motionStartIndex s = 2"
  shows "\<exists>s'. stop_move cfg s = Some s' \<and> \<not> inMove s'"
proof -
  from setKeys_returns[OF assms] obtain s1 where
    k: "setKeys cfg (motionStartIndex s) False (emit (Mouse_set_buttons False False False) s)
          = Some s1"
    by blast
  from assms(1) have "0 < max_unwind_step cfg" by (simp add: config_ok_def)
  from doUnwind_run[OF this, of "emit (Delay 10) s1"] obtain s2 where
    u: "doUnwind cfg (emit (Delay 10) s1) = Some s2"
    by blast
  show ?thesis unfolding stop_move_def by (simp add: k u)
qed

lemma start_move_returns:
  assumes "config_ok cfg" and "length axes = n_axes"
  shows "start_move cfg axes s = Some None
         \<or> (\<exists>s1. start_move cfg axes s = Some (Some s1) \<and> inMove s1
                \<and> (motionStartIndex s1 = 0 \<or> motionStartIndex s1 = 2))"
proof -
  have enter: "\<exists>s1. (do { t1 \<leftarrow> setKeys cfg i True
                              (s\<lparr>motionStartIndex := i, unwindAccumulator := (0, 0),
                                  inMove := True\<rparr>);
                         t2 \<leftarrow> setMouseButtons cfg i (emit (Delay 10) t1);
                         Some (Some (emit (Delay 10) t2)) }) = Some (Some s1)
                  \<and> inMove s1 \<and> motionStartIndex s1 = i"
    if i: "i = 0 \<or> i = 2" for i
  proof -
    from setKeys_returns[OF assms(1) i] obtain t1 where
      t1: "setKeys cfg i True
             (s\<lparr>motionStartIndex := i, unwindAccumulator := (0, 0), inMove := True\<rparr>) = Some t1"
      by blast
    from setMouseButtons_returns[OF assms(1) i] obtain t2 where
      t2: "setMouseButtons cfg i (emit (Delay 10) t1) = Some t2"
      by blast
    from setKeys_Some[OF t1] setMouseButtons_Some[OF t2]
    have "inMove (emit (Delay 10) t2) \<and> motionStartIndex (emit (Delay 10) t2) = i"
      by (auto simp: emit_def)
    then show ?thesis by (simp add: t1 t2)
  qed
  have d0: "checkDeadzone cfg axes 0 = Some (flt (arduino_abs (axes ! nat 0)) (deadzone cfg)
                                  \<and> flt (arduino_abs (axes ! nat (0 + 1))) (deadzone cfg))"
    by (rule checkDeadzone_eq[OF assms(2)]) simp
  have d2: "checkDeadzone cfg axes 2 = Some (flt (arduino_abs (axes ! nat 2)) (deadzone cfg)
                                  \<and> flt (arduino_abs (axes ! nat (2 + 1))) (deadzone cfg))"
    by (rule checkDeadzone_eq[OF assms(2)]) simp
  show ?thesis
    unfolding start_move_def using enter[of 0] enter[of 2]
    by (simp only: d0 d2 Option.bind.bind_lunit split: if_splits) auto
qed

lemma sendMouse_returns:
  assumes "config_ok cfg" and "length axes = n_axes" and "origin_ok s"
  shows "\<exists>s'. sendMouse cfg axes s = Some s' \<and> origin_ok s'"
proof (cases "inMove s")
  case True
  with assms(3) have i: "motionStartIndex s = 0 \<or> motionStartIndex s = 2"
    by (simp add: origin_ok_def)
  show ?thesis
  proof (cases "flt (arduino_abs (axes ! nat (motionStartIndex s))) (deadzone cfg)
                \<and> flt (arduino_abs (axes ! nat (motionStartIndex s + 1))) (deadzone cfg)")
    case inside: True
    then have "checkDeadzone cfg axes (motionStartIndex s) = Some True"
      by (simp add: checkDeadzone_eq[OF assms(2) i])
    from sendMouse_stop[OF True this] stop_move_returns[OF assms(1) i]
    show ?thesis by (auto simp: origin_ok_def)
  next
    case outside: False
    then have "checkDeadzone cfg axes (motionStartIndex s) = Some False"
      by (simp add: checkDeadzone_eq[OF assms(2) i])
    from sendMouse_steady[OF True this] move_mouse_returns[OF assms(2) i, of cfg]
    show ?thesis using i by (auto simp: origin_ok_def)
  qed
next
  case False
  from start_move_returns[OF assms(1,2), of s] show ?thesis
  proof
    assume "start_move cfg axes s = Some None"
    with False have "sendMouse cfg axes s = Some s" by (simp add: sendMouse_def)
    with False show ?thesis by (simp add: origin_ok_def)
  next
    assume "\<exists>s1. start_move cfg axes s = Some (Some s1) \<and> inMove s1
                \<and> (motionStartIndex s1 = 0 \<or> motionStartIndex s1 = 2)"
    then obtain s1 where s1: "start_move cfg axes s = Some (Some s1)"
      and i: "motionStartIndex s1 = 0 \<or> motionStartIndex s1 = 2"
      by blast
    from s1 False have "sendMouse cfg axes s = move_mouse cfg axes s1"
      by (simp add: sendMouse_def)
    with move_mouse_returns[OF assms(2) i, of cfg] i show ?thesis
      by (auto simp: origin_ok_def)
  qed
qed

lemma sendMouse_ticks_returns:
  assumes "config_ok cfg"
  shows "origin_ok s \<Longrightarrow> \<forall>t \<in> set ticks. length t = n_axes \<Longrightarrow>
         \<exists>s'. sendMouse_ticks cfg ticks s = Some s' \<and> origin_ok s'"
proof (induction ticks arbitrary: s)
  case Nil
  then show ?case by simp
next
  case (Cons t ticks)
  from sendMouse_returns[OF assms, of t s] Cons.prems obtain s1 where
    s1: "sendMouse cfg t s = Some s1" "origin_ok s1"
    by auto
  from Cons.IH[OF s1(2)] Cons.prems(2) show ?case by (simp add: s1(1))
qed

subsection \<open>Whole ticks\<close>

lemma sendJoystick_Some:
  assumes "sendJoystick cfg axes s = Some s'"
  shows "\<exists>evs. s' = s\<lparr>hid := hid s @ evs\<rparr> \<and> mouse_moves evs = []"
proof -
  from assms obtain x y sl zr where
    "s' = emit (Joystick_Zrotate zr) (emit (Joystick_sliderLeft sl)
            (emit (Joystick_Y y) (emit (Joystick_X x) s)))"
    unfolding sendJoystick_def Option.bind_eq_Some_conv by auto
  then show ?thesis
    by (intro exI[of _ "[Joystick_X x, Joystick_Y y, Joystick_sliderLeft sl, Joystick_Zrotate zr]"])
       (simp add: emit_def)
qed

lemma loop_Some:
  assumes "loop cfg axisExtents axisValues s = Some s'"
  shows "\<exists>axes evs s2. sendMouse cfg axes (s\<lparr>hid := hid s @ evs\<rparr>) = Some s2
           \<and> mouse_moves evs = [] \<and> s' = emit (Delay 10) s2"
proof -
  from assms obtain s1 s2 where
    j: "(if send_joystick_hid cfg
         then sendJoystick cfg (normalizeSticks axisExtents axisValues) s else Some s) = Some s1"
    and m: "sendMouse cfg (normalizeSticks axisExtents axisValues) s1 = Some s2"
    and s': "s' = emit (Delay 10) s2"
    unfolding loop_def Let_def Option.bind_eq_Some_conv by auto
  have "\<exists>evs. s1 = s\<lparr>hid := hid s @ evs\<rparr> \<and> mouse_moves evs = []"
  proof (cases "send_joystick_hid cfg")
    case True
    with j show ?thesis by (simp add: sendJoystick_Some)
  next
    case False
    with j have "s1 = s" by simp
    then show ?thesis by (intro exI[of _ "[]"]) simp
  qed
  with m s' show ?thesis by blast
qed

lemma length_normalizeSticks [simp]: "length (normalizeSticks axisExtents axisValues) = n_axes"
  by (simp add: normalizeSticks_def)





lemma pending_hid [simp]: "pending (s\<lparr>hid := h\<rparr>) = pending s"
  by (simp add: pending_def)

lemma pending_emit [simp]: "pending (emit c s) = pending s"
  by (simp add: pending_def emit_def)

subsection \<open>The displacement of a gesture\<close>




lemma stays_in_range_quiet: "mouse_moves evs = [] \<Longrightarrow> stays_in_range d evs"
  by (induction d evs rule: stays_in_range.induct) simp_all













lemma sendMouse_idle_zero:
  assumes "sendMouse cfg axes s = Some s'" and "idle_zero s"
  shows "idle_zero s'"
  using assms(1)
proof (cases rule: sendMouse_cases)
  case stop
  from stop_move_Some[OF stop(3)] show ?thesis unfolding idle_zero_def by auto
next
  case idle
  with assms(2) show ?thesis by simp
next
  case (start s1)
  from start_move_Some[OF start(2)] have "inMove s1" by auto
  moreover from move_mouse_Some[OF start(3)] have "inMove s' = inMove s1" by auto
  ultimately show ?thesis by (simp add: idle_zero_def)
next
  case steady
  from move_mouse_Some[OF steady(3)] have "inMove s' = inMove s" by auto
  with steady(1) show ?thesis by (simp add: idle_zero_def)
qed

lemma loop_idle_zero:
  assumes "loop cfg axisExtents axisValues s = Some s'" and "idle_zero s"
  shows "idle_zero s'"
proof -
  from loop_Some[OF assms(1)] obtain axes evs s2 where
    m: "sendMouse cfg axes (s\<lparr>hid := hid s @ evs\<rparr>) = Some s2"
    and s': "s' = emit (Delay 10) s2"
    by blast
  from assms(2) have "idle_zero (s\<lparr>hid := hid s @ evs\<rparr>)" by (simp add: idle_zero_def)
  from sendMouse_idle_zero[OF m this] show ?thesis using s' by (simp add: idle_zero_def emit_def)
qed

text \<open>
  Claim C10. The property "no move in progress implies the accumulator is \<open>(0, 0)\<close>" holds
  in the initial state, where the accumulator is \<open>(0, 0)\<close>, and every tick preserves it:
  if it holds before a run of ticks, it holds after it.
\<close>

theorem idle_accumulator_zero:
  assumes "loop_ticks cfg axisExtents samples s = Some s'"
    and "\<not> inMove s \<longrightarrow> unwindAccumulator s = (0, 0)"
  shows "\<not> inMove s' \<longrightarrow> unwindAccumulator s' = (0, 0)"
proof -
  have "idle_zero s \<Longrightarrow> loop_ticks cfg axisExtents samples s = Some s' \<Longrightarrow> idle_zero s'"
  proof (induction samples arbitrary: s)
    case Nil
    then show ?case by simp
  next
    case (Cons axisValues samples)
    from Cons.prems(2) obtain s1 where
      a: "loop cfg axisExtents axisValues s = Some s1"
      and b: "loop_ticks cfg axisExtents samples s1 = Some s'"
      by (auto simp: Option.bind_eq_Some_conv)
    from loop_idle_zero[OF a Cons.prems(1)] have "idle_zero s1" .
    from Cons.IH[OF this b] show ?case .
  qed
  with assms show ?thesis by (simp add: idle_zero_def)
qed

theorem idle_accumulator_zero_witness:
  "loop_ticks (orbit_rat_config 7) orbit_rat_axisExtents orbit_gesture initial_state
     = Some orbit_gesture_end
   \<and> \<not> inMove initial_state \<and> unwindAccumulator initial_state = (0, 0)
   \<and> \<not> inMove orbit_gesture_end \<and> unwindAccumulator orbit_gesture_end = (0, 0)"
proof -
  have run: "loop_ticks (orbit_rat_config 7) orbit_rat_axisExtents orbit_gesture initial_state
               = Some orbit_gesture_end"
    by code_simp
  have init: "\<not> inMove initial_state \<longrightarrow> unwindAccumulator initial_state = (0, 0)"
    by (simp add: initial_state_def)
  from idle_accumulator_zero[OF run init] show ?thesis
    using run by (simp add: initial_state_def orbit_gesture_end_def)
qed

subsection \<open>Calibration and normalization\<close>

lemma round_half_even_pos:
  assumes "0 < d" and "d \<le> n"
  shows "0 < round_half_even n d"
proof -
  from assms have "0 < n div d" by (simp add: pos_imp_zdiv_pos_iff)
  then show ?thesis by (simp add: round_half_even_def Let_def)
qed

lemma round_ratio_zero: "0 < q \<Longrightarrow> round_ratio 0 q = Fin 0"
  by (simp add: round_ratio_def Let_def round_half_even_def)

lemma exponent_unit:
  assumes "1 \<le> p"
  shows "- 126 \<le> exponent p (2 ^ 149)" and "2 ^ nat (126 + exponent p (2 ^ 149)) \<le> p"
proof -
  let ?e = "exponent p (2 ^ 149)"
  show lo: "- 126 \<le> ?e" by (simp add: exponent_def Let_def)
  have "bitlen 1 = 1" by (simp add: bitlen_alt_def)
  with bitlen_pow2[of 1 149] have b: "bitlen (2 ^ 149) = 150" by simp
  have hi: "?e \<le> max (bitlen p - 150) (- 126)"
    unfolding exponent_def Let_def b by (simp add: max_def)
  show "2 ^ nat (126 + ?e) \<le> p"
  proof (cases "?e = - 126")
    case True
    with assms show ?thesis by simp
  next
    case False
    with lo hi have "?e \<le> bitlen p - 150" by linarith
    then have "nat (126 + ?e) \<le> nat (bitlen p - 1)" by linarith
    then have "(2::int) ^ nat (126 + ?e) \<le> 2 ^ nat (bitlen p - 1)"
      by (intro power_increasing) simp_all
    also have "\<dots> \<le> p" using bitlen_bounds[of p] assms by simp
    finally show ?thesis .
  qed
qed

text \<open>
  A difference of two floats that is positive as a real number does not round to zero:
  it is at least one unit of \<open>2 ^ - 149\<close>, which the subnormal numbers represent.
\<close>

lemma round_ratio_pos:
  assumes "1 \<le> p"
  shows "round_ratio p (2 ^ 149) = PInf \<or> (\<exists>k. 0 < k \<and> round_ratio p (2 ^ 149) = Fin k)"
proof -
  let ?e = "exponent p (2 ^ 149)"
  let ?n = "p * 2 ^ nat (23 - ?e)"
  let ?d = "(2::int) ^ 149 * 2 ^ nat (?e - 23)"
  let ?m = "round_half_even ?n ?d"
  have "?d \<le> ?n"
  proof (cases "?e \<le> 23")
    case True
    have "nat (126 + ?e) + nat (23 - ?e) = 149"
      using True exponent_unit(1)[OF assms] by linarith
    then have "(2::int) ^ 149 = 2 ^ nat (126 + ?e) * 2 ^ nat (23 - ?e)"
      by (simp only: power_add[symmetric])
    also have "\<dots> \<le> ?n"
      by (intro mult_right_mono exponent_unit(2)[OF assms]) simp
    finally show ?thesis using True by simp
  next
    case False
    then have "149 + nat (?e - 23) = nat (126 + ?e)" by linarith
    then have "?d = 2 ^ nat (126 + ?e)"
      by (simp only: power_add[symmetric])
    also have "\<dots> \<le> p" by (rule exponent_unit(2)[OF assms])
    finally show ?thesis using False by simp
  qed
  then have "0 < ?m" by (intro round_half_even_pos) simp_all
  then have "0 < ?m * 2 ^ nat (?e + 126)" by simp
  then show ?thesis using assms by (simp add: round_ratio_def Let_def)
qed

lemma fdiv_zero:
  assumes "r = PInf \<or> (\<exists>k. 0 < k \<and> r = Fin k)"
  shows "fdiv (Fin 0) r = Fin 0"
  using assms by (auto simp: round_ratio_zero)

lemma normalizeAxis_center:
  assumes "flt low center" and "flt center high" and "float_of_int raw = center"
  shows "normalizeAxis (low, center, high) raw = Fin 0"
proof -
  from assms(1,2) obtain c where c: "center = Fin c"
    by (cases center; cases low; cases high) simp_all
  have z: "fsub center center = Fin 0"
    by (simp add: c fsub_def round_ratio_zero)
  have "fsub high center = PInf \<or> (\<exists>k. 0 < k \<and> fsub high center = Fin k)"
  proof (cases high)
    case (Fin h)
    with assms(2) c have "1 \<le> h - c" by simp
    from round_ratio_pos[OF this] show ?thesis by (simp add: Fin c fsub_def)
  next
    case PInf
    then show ?thesis by (simp add: c fsub_def)
  next
    case NInf
    with assms(2) c show ?thesis by simp
  next
    case NaN
    with assms(2) c show ?thesis by simp
  qed
  then have "fdiv (Fin 0) (fsub high center) = Fin 0" by (rule fdiv_zero)
  moreover have "\<not> flt center center" by (simp add: c)
  ultimately show ?thesis
    unfolding normalizeAxis_def normalize_def Let_def by (simp add: assms(3) z)
qed

lemma normalizeSticks_nth:
  assumes "i < n_axes"
  shows "normalizeSticks axisExtents axisValues ! i = normalizeAxis (axisExtents ! i) (axisValues ! i)"
  using assms by (simp add: normalizeSticks_def)

lemma calibrate_nth:
  assumes "calibrate_on_startup cfg" and "i < n_axes" and "axisExtents ! i = (low, c0, high)"
  shows "calibrate cfg axisValues axisExtents ! i = (low, float_of_int (axisValues ! i), high)"
  using assms by (simp add: calibrate_def)

text \<open>
  Claim C5. For every calibration with \<open>low < center < high\<close>, a raw sample equal to the
  center is normalized to 0. With startup calibration on, the center of an axis becomes the
  sample read at startup, whatever center was configured, and \<^verbatim>\<open>normalizeSticks\<close> gives 0
  on that axis for that sample. The witness is the axis \<open>(3, 520, 1021)\<close> with the startup
  sample 600. (The source computes \<open>- (0 / range)\<close>, the negative zero of a \<^verbatim>\<open>float\<close>, which
  compares equal to 0; \<open>range\<close> is a positive number or \<open>+\<infinity>\<close>.)
\<close>

theorem normalize_center_zero:
  assumes "flt low center" and "flt center high" and "float_of_int raw = center"
  shows "normalizeAxis (low, center, high) raw = Fin 0
    \<and> (calibrate_on_startup cfg \<and> i < n_axes \<and> axisExtents ! i = (low, c0, high)
         \<and> axisValues ! i = raw
       \<longrightarrow> calibrate cfg axisValues axisExtents ! i = (low, center, high)
           \<and> normalizeSticks (calibrate cfg axisValues axisExtents) axisValues ! i = Fin 0)"
proof (intro conjI impI)
  show z: "normalizeAxis (low, center, high) raw = Fin 0"
    by (rule normalizeAxis_center[OF assms])
  assume h: "calibrate_on_startup cfg \<and> i < n_axes \<and> axisExtents ! i = (low, c0, high)
         \<and> axisValues ! i = raw"
  then show c: "calibrate cfg axisValues axisExtents ! i = (low, center, high)"
    using calibrate_nth[of cfg i axisExtents low c0 high axisValues] assms(3) by simp
  from h have "i < n_axes" by simp
  from normalizeSticks_nth[OF this, of "calibrate cfg axisValues axisExtents" axisValues] h c z
  show "normalizeSticks (calibrate cfg axisValues axisExtents) axisValues ! i = Fin 0"
    by simp
qed

theorem normalize_center_zero_witness:
  "flt (float_of_int 3) (float_of_int 600) \<and> flt (float_of_int 600) (float_of_int 1021)
   \<and> normalizeAxis (float_of_int 3, float_of_int 600, float_of_int 1021) 600 = Fin 0
   \<and> calibrate (orbit_rat_config 7) [600, 498, 530, 513] orbit_rat_axisExtents ! 0
       = (float_of_int 3, float_of_int 600, float_of_int 1021)
   \<and> normalizeSticks (calibrate (orbit_rat_config 7) [600, 498, 530, 513] orbit_rat_axisExtents)
        [600, 498, 530, 513] = [Fin 0, Fin 0, Fin 0, Fin 0]"
proof -
  have run: "normalizeSticks (calibrate (orbit_rat_config 7) [600, 498, 530, 513] orbit_rat_axisExtents)
        [600, 498, 530, 513] = [Fin 0, Fin 0, Fin 0, Fin 0]"
    by code_simp
  have h: "flt (float_of_int 3) (float_of_int 600)" "flt (float_of_int 600) (float_of_int 1021)"
    by code_simp+
  have g: "calibrate_on_startup (orbit_rat_config 7) \<and> 0 < n_axes
           \<and> orbit_rat_axisExtents ! 0 = (float_of_int 3, float_of_int 520, float_of_int 1021)
           \<and> [600, 498, 530, 513] ! 0 = (600::int)"
    by (simp add: orbit_rat_config_def n_axes_def orbit_rat_axisExtents_def)
  from normalize_center_zero[OF h refl, of "orbit_rat_config 7" 0 orbit_rat_axisExtents
         "float_of_int 520" "[600, 498, 530, 513]"] g run h
  show ?thesis by simp
qed

text \<open>
  An axis calibrated with its center at its high value has a range of zero above the
  center. The sample at the center is then normalized to \<open>0 / 0\<close>, a NaN, which no
  comparison finds inside the dead zone: the tick carries on and starts a move, and the
  move it sends is the conversion of a NaN to an \<^verbatim>\<open>int\<close>, 0 on the ARM cores.
\<close>

lemma zero_range_tick:
  "calibrate (orbit_rat_config 7) [1021, 498, 530, 513] orbit_rat_axisExtents ! 0
     = (float_of_int 3, float_of_int 1021, float_of_int 1021)
   \<and> normalizeSticks (calibrate (orbit_rat_config 7) [1021, 498, 530, 513] orbit_rat_axisExtents)
        [1021, 498, 530, 513] = [NaN, Fin 0, Fin 0, Fin 0]
   \<and> loop (orbit_rat_config 7)
        (calibrate (orbit_rat_config 7) [1021, 498, 530, 513] orbit_rat_axisExtents)
        [1021, 498, 530, 513] initial_state
       = Some \<lparr> unwindAccumulator = (0, 0), inMove = True, motionStartIndex = 0,
                 hid = [Delay 10, Mouse_set_buttons False True False, Delay 10,
                        Mouse_move 0 0, Delay 10] \<rparr>"
proof -
  have "calibrate (orbit_rat_config 7) [1021, 498, 530, 513] orbit_rat_axisExtents ! 0
          = (float_of_int 3, float_of_int 1021, float_of_int 1021)"
    by code_simp
  moreover have
    "normalizeSticks (calibrate (orbit_rat_config 7) [1021, 498, 530, 513] orbit_rat_axisExtents)
        [1021, 498, 530, 513] = [NaN, Fin 0, Fin 0, Fin 0]"
    by code_simp
  moreover have "loop (orbit_rat_config 7)
        (calibrate (orbit_rat_config 7) [1021, 498, 530, 513] orbit_rat_axisExtents)
        [1021, 498, 530, 513] initial_state
       = Some \<lparr> unwindAccumulator = (0, 0), inMove = True, motionStartIndex = 0,
                 hid = [Delay 10, Mouse_set_buttons False True False, Delay 10,
                        Mouse_move 0 0, Delay 10] \<rparr>"
    by code_simp
  ultimately show ?thesis by (simp only: simp_thms)
qed

subsection \<open>The dead zone\<close>

text \<open>
  Claim C6, at its boundary. \<^verbatim>\<open>checkDeadzone\<close> compares with \<open><\<close> (lemma
  \<open>checkDeadzone_eq\<close>): a stick is in its dead zone when both axes are strictly below the
  threshold. With the center of the first axis calibrated at 521, the sample 531 is
  normalized to the float nearest to \<open>- 10 / 500\<close>, and this is the negation of the float
  \<^verbatim>\<open>deadzone\<close>, the one nearest to \<open>0.02\<close>. Both axes are within the threshold, none
  exceeds it, and the stick is classified active.
\<close>

theorem deadzone_boundary_active:
  "normalizeSticks (calibrate (orbit_rat_config 7) [521, 498, 530, 513] orbit_rat_axisExtents)
     [531, 498, 530, 513] = [fneg (deadzone (orbit_rat_config 7)), Fin 0, Fin 0, Fin 0]
   \<and> arduino_abs (fneg (deadzone (orbit_rat_config 7))) = deadzone (orbit_rat_config 7)
   \<and> \<not> flt (deadzone (orbit_rat_config 7)) (arduino_abs (fneg (deadzone (orbit_rat_config 7))))
   \<and> \<not> flt (deadzone (orbit_rat_config 7)) (arduino_abs (Fin 0))
   \<and> checkDeadzone (orbit_rat_config 7)
        [fneg (deadzone (orbit_rat_config 7)), Fin 0, Fin 0, Fin 0] 0 = Some False"
proof -
  have "normalizeSticks (calibrate (orbit_rat_config 7) [521, 498, 530, 513] orbit_rat_axisExtents)
     [531, 498, 530, 513] = [fneg (deadzone (orbit_rat_config 7)), Fin 0, Fin 0, Fin 0]"
    by code_simp
  moreover have "arduino_abs (fneg (deadzone (orbit_rat_config 7))) = deadzone (orbit_rat_config 7)"
    by code_simp
  moreover have
    "\<not> flt (deadzone (orbit_rat_config 7)) (arduino_abs (fneg (deadzone (orbit_rat_config 7))))"
    by code_simp
  moreover have "\<not> flt (deadzone (orbit_rat_config 7)) (arduino_abs (Fin 0))"
    by code_simp
  moreover have "checkDeadzone (orbit_rat_config 7)
        [fneg (deadzone (orbit_rat_config 7)), Fin 0, Fin 0, Fin 0] 0 = Some False"
    by code_simp
  ultimately show ?thesis by (simp only: simp_thms)
qed

subsection \<open>Joystick reports\<close>

text \<open>
  The remap is computed in binary32, and each of its three operations rounds. The raw
  sample 379 on the first axis is normalized to the float \<open>4575604 / 2 ^ 24\<close>. The remap
  of this number is \<open>650.99998\<close> as a real number, which truncates to 650; the product
  by 1023 rounds to the float 651, and \<^verbatim>\<open>to_joy\<close> reports 651.
\<close>

lemma to_joy_rounds:
  "normalizeSticks orbit_rat_axisExtents [379, 498, 530, 513]
     = [round_ratio 4575604 (2 ^ 24), Fin 0, Fin 0, Fin 0]
   \<and> to_joy (orbit_rat_config 7) (round_ratio 4575604 (2 ^ 24)) = 651"
proof -
  have "normalizeSticks orbit_rat_axisExtents [379, 498, 530, 513]
          = [round_ratio 4575604 (2 ^ 24), Fin 0, Fin 0, Fin 0]"
    by code_simp
  moreover have "to_joy (orbit_rat_config 7) (round_ratio 4575604 (2 ^ 24)) = 651"
    by code_simp
  ultimately show ?thesis by (simp only: simp_thms)
qed

text \<open>
  Claim C9 at a sample below the low value of its axis. The comment on \<^verbatim>\<open>normalizeSticks\<close>
  gives its results the range \<open>(- 1, 1)\<close>, and the comment on \<^verbatim>\<open>to_joy\<close> gives the reports
  the range from 0 to 1023; neither function clamps. The raw sample 0 on the first axis,
  whose low value is 3, is normalized to the float \<open>8437285 / 2 ^ 23\<close>, above 1, and the
  value reported on the channel X is 1025. With \<^verbatim>\<open>send_joystick_hid\<close> on, one pass of
  \<^verbatim>\<open>loop()\<close> on this sample makes the call \<^verbatim>\<open>Joystick.X(1025)\<close>.
\<close>

theorem joystick_report_above_range:
  "normalizeSticks orbit_rat_axisExtents [0, 498, 530, 513]
     = [round_ratio 8437285 (2 ^ 23), Fin 0, Fin 0, Fin 0]
   \<and> flt (float_of_int 1) (round_ratio 8437285 (2 ^ 23))
   \<and> to_joy (orbit_rat_config 7) (round_ratio 8437285 (2 ^ 23)) = 1025
   \<and> \<not> (1025 :: int) \<le> 1023
   \<and> loop ((orbit_rat_config 7)\<lparr>send_joystick_hid := True\<rparr>) orbit_rat_axisExtents
        [0, 498, 530, 513] initial_state
       = Some \<lparr> unwindAccumulator = (- 25, 0), inMove = True, motionStartIndex = 0,
                 hid = [Joystick_X 1025, Joystick_Y 511, Joystick_sliderLeft 511,
                        Joystick_Zrotate 511, Delay 10, Mouse_set_buttons False True False,
                        Delay 10, Mouse_move (- 25) 0, Delay 10] \<rparr>"
proof -
  have "normalizeSticks orbit_rat_axisExtents [0, 498, 530, 513]
          = [round_ratio 8437285 (2 ^ 23), Fin 0, Fin 0, Fin 0]"
    by code_simp
  moreover have "flt (float_of_int 1) (round_ratio 8437285 (2 ^ 23))"
    by code_simp
  moreover have "to_joy (orbit_rat_config 7) (round_ratio 8437285 (2 ^ 23)) = 1025"
    by code_simp
  moreover have "loop ((orbit_rat_config 7)\<lparr>send_joystick_hid := True\<rparr>) orbit_rat_axisExtents
        [0, 498, 530, 513] initial_state
       = Some \<lparr> unwindAccumulator = (- 25, 0), inMove = True, motionStartIndex = 0,
                 hid = [Joystick_X 1025, Joystick_Y 511, Joystick_sliderLeft 511,
                        Joystick_Zrotate 511, Delay 10, Mouse_set_buttons False True False,
                        Delay 10, Mouse_move (- 25) 0, Delay 10] \<rparr>"
    by code_simp
  ultimately show ?thesis by simp
qed


end
